theory Spec2Isabelle
  imports Complex_Main "HOL-Library.Multiset"
begin

section \<open>Elo rating system (amm_competition/competition/elo.py)\<close>

text \<open>
  Python floats are modelled as real numbers: rounding and overflow of IEEE doubles are
  outside the model. Python integers are \<open>int\<close>. An exception is a value of
  \<open>py_error\<close>; a function that can raise returns \<open>py_error + 'a\<close>.
\<close>

datatype py_error = ValueError | CompileError string

record PlayerRating =
  name :: string
  rating :: real
  matches_played :: int
  wins :: int
  losses :: int
  draws :: int

record EloRating =
  initial_rating :: real
  k_factor :: real
  mov_factor :: real
  ratings :: "string \<rightharpoonup> PlayerRating"

text \<open>\<open>EloRating.__init__\<close>: the three parameters and an empty rating map.\<close>

definition EloRating_init :: "real \<Rightarrow> real \<Rightarrow> real \<Rightarrow> EloRating" where
  "EloRating_init ir k m =
     \<lparr>initial_rating = ir, k_factor = k, mov_factor = m, ratings = Map.empty\<rparr>"

text \<open>The object \<open>PlayerRating(name=name, rating=self.initial_rating)\<close>.\<close>

definition new_player :: "EloRating \<Rightarrow> string \<Rightarrow> PlayerRating" where
  "new_player s nm =
     \<lparr>name = nm, rating = initial_rating s, matches_played = 0, wins = 0, losses = 0,
      draws = 0\<rparr>"

text \<open>
  \<open>get_rating\<close> inserts a fresh player when the name is missing and returns the stored
  object. The result pairs the object's current value with the updated system.
\<close>

definition get_rating :: "EloRating \<Rightarrow> string \<Rightarrow> PlayerRating \<times> EloRating" where
  "get_rating s nm =
     (case ratings s nm of
        None \<Rightarrow> (new_player s nm, s\<lparr>ratings := (ratings s)(nm \<mapsto> new_player s nm)\<rparr>)
      | Some p \<Rightarrow> (p, s))"

definition expected_score :: "real \<Rightarrow> real \<Rightarrow> real" where
  "expected_score rating_a rating_b = 1 / (1 + 10 powr ((rating_b - rating_a) / 400))"

definition get_k_factor :: "EloRating \<Rightarrow> PlayerRating \<Rightarrow> real" where
  "get_k_factor s player =
     (if matches_played player < 10 then k_factor s * 1.5
      else if matches_played player < 30 then k_factor s
      else k_factor s * 0.75)"

text \<open>\<open>math.log\<close> raises ValueError on an argument that is not positive.\<close>

definition py_log :: "real \<Rightarrow> py_error + real" where
  "py_log x = (if 0 < x then Inr (ln x) else Inl ValueError)"

definition margin_multiplier :: "EloRating \<Rightarrow> int \<Rightarrow> int \<Rightarrow> int \<Rightarrow> py_error + real" where
  "margin_multiplier s winner_score loser_score total_games =
     (if total_games = 0 then Inr 1
      else
        let margin = real_of_int (winner_score - loser_score) / real_of_int total_games
        in case py_log (1 + margin * 2) of
             Inl e \<Rightarrow> Inl e
           | Inr l \<Rightarrow> Inr (1 + mov_factor s * l))"

text \<open>
  In \<open>update_ratings\<close> the variables \<open>rating_a\<close> and \<open>rating_b\<close> are references into the
  rating map; they are the same object when \<open>player_a = player_b\<close>. The model keeps the
  objects in the map and addresses them by name: \<open>obj\<close> reads the object behind a
  reference, \<open>modify\<close> is an in-place field update through it.
\<close>

definition obj :: "EloRating \<Rightarrow> string \<Rightarrow> PlayerRating" where
  "obj s nm = (case ratings s nm of Some p \<Rightarrow> p | None \<Rightarrow> new_player s nm)"

definition modify :: "string \<Rightarrow> (PlayerRating \<Rightarrow> PlayerRating) \<Rightarrow> EloRating \<Rightarrow> EloRating" where
  "modify nm f s =
     (case ratings s nm of
        Some p \<Rightarrow> s\<lparr>ratings := (ratings s)(nm \<mapsto> f p)\<rparr>
      | None \<Rightarrow> s)"

text \<open>
  The tail of \<open>update_ratings\<close> that all three outcome branches share: expected scores
  from the current ratings, the K-factors, the two rating updates and the two match
  counters, statement by statement.
\<close>

definition apply_update ::
  "EloRating \<Rightarrow> string \<Rightarrow> string \<Rightarrow> real \<Rightarrow> real \<Rightarrow> real \<Rightarrow> (real \<times> real) \<times> EloRating" where
  "apply_update s player_a player_b actual_a actual_b multiplier =
     (let expected_a = expected_score (rating (obj s player_a)) (rating (obj s player_b));
          expected_b = 1 - expected_a;
          k_a = get_k_factor s (obj s player_a);
          k_b = get_k_factor s (obj s player_b);
          s1 = modify player_a
                 (\<lambda>p. p\<lparr>rating := rating p + k_a * multiplier * (actual_a - expected_a)\<rparr>) s;
          s2 = modify player_b
                 (\<lambda>p. p\<lparr>rating := rating p + k_b * multiplier * (actual_b - expected_b)\<rparr>) s1;
          s3 = modify player_a (\<lambda>p. p\<lparr>matches_played := matches_played p + 1\<rparr>) s2;
          s4 = modify player_b (\<lambda>p. p\<lparr>matches_played := matches_played p + 1\<rparr>) s3
      in ((rating (obj s4 player_a), rating (obj s4 player_b)), s4))"

text \<open>
  \<open>update_ratings\<close> returns the outcome of the call (the pair of ratings, or the
  exception raised) together with the rating system as the call leaves it: mutations
  made before an exception stay.
\<close>

definition update_ratings ::
  "EloRating \<Rightarrow> string \<Rightarrow> string \<Rightarrow> int \<Rightarrow> int \<Rightarrow> (py_error + real \<times> real) \<times> EloRating" where
  "update_ratings s player_a player_b score_a score_b =
     (let s1 = snd (get_rating s player_a);
          s2 = snd (get_rating s1 player_b);
          total_games = score_a + score_b
      in if total_games = 0 then
           (Inr (rating (obj s2 player_a), rating (obj s2 player_b)), s2)
         else if score_a > score_b then
           (let s3 = modify player_a (\<lambda>p. p\<lparr>wins := wins p + 1\<rparr>) s2;
                s4 = modify player_b (\<lambda>p. p\<lparr>losses := losses p + 1\<rparr>) s3
            in case margin_multiplier s4 score_a score_b total_games of
                 Inl e \<Rightarrow> (Inl e, s4)
               | Inr multiplier \<Rightarrow>
                   (case apply_update s4 player_a player_b 1 0 multiplier of
                      (r, s') \<Rightarrow> (Inr r, s')))
         else if score_b > score_a then
           (let s3 = modify player_a (\<lambda>p. p\<lparr>losses := losses p + 1\<rparr>) s2;
                s4 = modify player_b (\<lambda>p. p\<lparr>wins := wins p + 1\<rparr>) s3
            in case margin_multiplier s4 score_b score_a total_games of
                 Inl e \<Rightarrow> (Inl e, s4)
               | Inr multiplier \<Rightarrow>
                   (case apply_update s4 player_a player_b 0 1 multiplier of
                      (r, s') \<Rightarrow> (Inr r, s')))
         else
           (let s3 = modify player_a (\<lambda>p. p\<lparr>draws := draws p + 1\<rparr>) s2;
                s4 = modify player_b (\<lambda>p. p\<lparr>draws := draws p + 1\<rparr>) s3
            in case apply_update s4 player_a player_b (1/2) (1/2) 1 of
                 (r, s') \<Rightarrow> (Inr r, s')))"

text \<open>The counter invariant of one player, and of every player in the map.\<close>

definition counters_ok :: "PlayerRating \<Rightarrow> bool" where
  "counters_ok p \<longleftrightarrow> wins p + losses p + draws p = matches_played p"

definition elo_inv :: "EloRating \<Rightarrow> bool" where
  "elo_inv s \<longleftrightarrow> (\<forall>nm p. ratings s nm = Some p \<longrightarrow> counters_ok p)"

text \<open>
  Bookkeeping for the invariant proof: how many of the two references point at the
  player \<open>q\<close>, and by how much the outcome counters of a player exceed
  \<open>matches_played\<close>.
\<close>

definition bump :: "string \<Rightarrow> string \<Rightarrow> string \<Rightarrow> int" where
  "bump a b q = (if q = a then 1 else 0) + (if q = b then 1 else 0)"

definition excess :: "PlayerRating \<Rightarrow> int" where
  "excess p = wins p + losses p + draws p - matches_played p"

text \<open>
  The rating systems a caller can build: a fresh one, and what \<open>get_rating\<close> and a
  returning call of \<open>update_ratings\<close> make of a reachable one.
\<close>

inductive reachable :: "EloRating \<Rightarrow> bool" where
  init: "reachable (EloRating_init ir k m)"
| get: "reachable s \<Longrightarrow> reachable (snd (get_rating s nm))"
| upd: "reachable s \<Longrightarrow> fst (update_ratings s a b sa sb) = Inr r \<Longrightarrow>
        reachable (snd (update_ratings s a b sa sb))"

text \<open>
  The margin of a match as the specification writes it, and the inputs it calls valid.
\<close>

definition margin_of :: "int \<Rightarrow> int \<Rightarrow> int \<Rightarrow> real" where
  "margin_of winner_score loser_score total_games =
     real_of_int (winner_score - loser_score) / real_of_int total_games"

definition valid_margin_input :: "EloRating \<Rightarrow> int \<Rightarrow> int \<Rightarrow> int \<Rightarrow> bool" where
  "valid_margin_input s winner_score loser_score total_games \<longleftrightarrow>
     0 \<le> mov_factor s \<and> 0 \<le> loser_score \<and> loser_score \<le> winner_score \<and>
     winner_score - loser_score \<le> total_games \<and> 0 < total_games"

text \<open>A rating system with one experienced player, used to run the operations.\<close>

definition sample_elo :: EloRating where
  "sample_elo =
     \<lparr>initial_rating = 1500, k_factor = 32, mov_factor = 1/2,
      ratings = [''alice'' \<mapsto>
        \<lparr>name = ''alice'', rating = 1600, matches_played = 3, wins = 2, losses = 1,
         draws = 0\<rparr>]\<rparr>"

section \<open>Paired-seed statistics (scripts/paired_eval.py)\<close>

text \<open>
  A statistic is a Python float. The finite ones are real numbers; \<open>NaN\<close> is kept apart,
  because \<open>np.mean\<close> of an empty array is NaN and every comparison with NaN is false.
  Arrays of per-seed edges are lists of finite values.
\<close>

datatype pyfloat = Fin real | NaN

fun fl_lt :: "pyfloat \<Rightarrow> pyfloat \<Rightarrow> bool" where
  "fl_lt (Fin a) (Fin b) = (a < b)"
| "fl_lt _ _ = False"

fun fl_ge :: "pyfloat \<Rightarrow> pyfloat \<Rightarrow> bool" where
  "fl_ge (Fin a) (Fin b) = (b \<le> a)"
| "fl_ge _ _ = False"

definition fl_gt :: "pyfloat \<Rightarrow> pyfloat \<Rightarrow> bool" where
  "fl_gt x y = fl_lt y x"

definition fl_le :: "pyfloat \<Rightarrow> pyfloat \<Rightarrow> bool" where
  "fl_le x y = fl_ge y x"

fun is_fin :: "pyfloat \<Rightarrow> bool" where
  "is_fin (Fin a) = True"
| "is_fin NaN = False"

fun fl_map :: "(real \<Rightarrow> real) \<Rightarrow> pyfloat \<Rightarrow> pyfloat" where
  "fl_map f (Fin a) = Fin (f a)"
| "fl_map f NaN = NaN"

text \<open>
  Float division. Both divisions of \<open>paired_compare\<close> are guarded by a test that the
  divisor is positive, so Python's ZeroDivisionError cannot occur there.
\<close>

fun fl_div :: "pyfloat \<Rightarrow> pyfloat \<Rightarrow> pyfloat" where
  "fl_div (Fin a) (Fin b) = Fin (a / b)"
| "fl_div _ _ = NaN"

text \<open>
  \<open>cand_edges - base_edges\<close> on one-dimensional arrays: elementwise on equal lengths,
  an array of length one is broadcast, any other pair of lengths raises ValueError.
\<close>

definition np_sub :: "real list \<Rightarrow> real list \<Rightarrow> py_error + real list" where
  "np_sub xs ys =
     (if length xs = length ys then Inr (map2 (-) xs ys)
      else if length xs = 1 then Inr (map (\<lambda>y. hd xs - y) ys)
      else if length ys = 1 then Inr (map (\<lambda>x. x - hd ys) xs)
      else Inl ValueError)"

text \<open>\<open>np.mean\<close>: NaN (with a warning only) on the empty array.\<close>

definition np_mean :: "real list \<Rightarrow> pyfloat" where
  "np_mean xs = (if xs = [] then NaN else Fin (sum_list xs / real (length xs)))"

text \<open>
  \<open>np.std(xs, ddof=1)\<close>: the root of the squared deviations from the mean divided by
  \<open>len(xs) - 1\<close>; NaN when that divisor is not positive.
\<close>

definition np_std_ddof1 :: "real list \<Rightarrow> pyfloat" where
  "np_std_ddof1 xs =
     (if length xs \<le> 1 then NaN
      else Fin (sqrt (sum_list (map (\<lambda>x. (x - sum_list xs / real (length xs))\<^sup>2) xs)
                      / real (length xs - 1))))"

text \<open>
  \<open>_normal_cdf\<close>. The complementary error function \<open>math.erfc\<close> is a parameter of the
  model.
\<close>

definition normal_cdf :: "(real \<Rightarrow> real) \<Rightarrow> real \<Rightarrow> real" where
  "normal_cdf erfc x = 0.5 * erfc (- x / sqrt 2)"

text \<open>The dictionary \<open>paired_compare\<close> returns; its key \<open>n\<close> is the field \<open>stat_n\<close>.\<close>

record stats =
  stat_n :: nat
  cand_mean :: pyfloat
  base_mean :: pyfloat
  mean_delta :: pyfloat
  se :: pyfloat
  t_stat :: pyfloat
  p_value :: pyfloat
  win_rate :: pyfloat

definition paired_compare ::
  "(real \<Rightarrow> real) \<Rightarrow> real list \<Rightarrow> real list \<Rightarrow> py_error + stats" where
  "paired_compare erfc cand_edges base_edges =
     (let n = length cand_edges
      in case np_sub cand_edges base_edges of
           Inl e \<Rightarrow> Inl e
         | Inr deltas \<Rightarrow>
             let mean_delta' = np_mean deltas;
                 std_delta = (if n > 1 then np_std_ddof1 deltas else Fin 0);
                 se' = (if n > 0 then fl_div std_delta (Fin (sqrt (real n))) else Fin 0);
                 t_stat' = (if fl_gt se' (Fin 0) then fl_div mean_delta' se' else Fin 0);
                 p_value' = (if fl_gt se' (Fin 0)
                             then fl_map (\<lambda>t. 2 * (1 - normal_cdf erfc \<bar>t\<bar>)) t_stat'
                             else Fin 1);
                 win_rate' = np_mean (map (\<lambda>d. if d > 0 then 1 else 0) deltas)
             in Inr \<lparr>stat_n = n, cand_mean = np_mean cand_edges,
                     base_mean = np_mean base_edges, mean_delta = mean_delta', se = se',
                     t_stat = t_stat', p_value = p_value', win_rate = win_rate'\<rparr>)"

text \<open>The statistics in the words of the specification, for \<open>n \<ge> 1\<close> paired samples.\<close>

definition deltas_of :: "real list \<Rightarrow> real list \<Rightarrow> real list" where
  "deltas_of cand base = map (\<lambda>i. cand ! i - base ! i) [0..<length cand]"

definition arith_mean :: "real list \<Rightarrow> real" where
  "arith_mean xs = (\<Sum>x\<leftarrow>xs. x) / real (length xs)"

definition sample_std :: "real list \<Rightarrow> real" where
  "sample_std xs =
     (if length xs > 1
      then sqrt ((\<Sum>x\<leftarrow>xs. (x - arith_mean xs)\<^sup>2) / (real (length xs) - 1))
      else 0)"

definition std_error :: "real list \<Rightarrow> real" where
  "std_error ds = sample_std ds / sqrt (real (length ds))"

definition t_statistic :: "real list \<Rightarrow> real" where
  "t_statistic ds = (if std_error ds > 0 then arith_mean ds / std_error ds else 0)"

definition two_sided_p :: "(real \<Rightarrow> real) \<Rightarrow> real list \<Rightarrow> real" where
  "two_sided_p erfc ds =
     (if std_error ds > 0 then 2 * (1 - normal_cdf erfc \<bar>t_statistic ds\<bar>) else 1)"

definition win_fraction :: "real list \<Rightarrow> real" where
  "win_fraction ds = real (length (filter (\<lambda>d. d > 0) ds)) / real (length ds)"

section \<open>The staged search protocol (scripts/paired_eval.py)\<close>

text \<open>
  A candidate definition as \<open>_build_candidates\<close> produces it, and a stage result: the
  statistics of \<open>paired_compare\<close> with the keys \<open>candidate\<close>, \<open>baseline\<close> and \<open>def\<close>
  that \<open>run_search\<close> adds.
\<close>

record cand_def =
  cand_name :: string
  family :: string
  template :: string
  params :: "(string \<times> string) list"

record entry = stats +
  candidate :: string
  baseline :: string
  cdef :: cand_def

definition tag_stats :: "stats \<Rightarrow> string \<Rightarrow> string \<Rightarrow> cand_def \<Rightarrow> entry" where
  "tag_stats st c b d =
     \<lparr>stat_n = stat_n st, cand_mean = cand_mean st, base_mean = base_mean st,
      mean_delta = mean_delta st, se = se st, t_stat = t_stat st, p_value = p_value st,
      win_rate = win_rate st, candidate = c, baseline = b, cdef = d\<rparr>"

text \<open>
  The collaborators of the protocol, which are not part of it. \<open>compile_source\<close> runs an
  external compiler and reads the base contracts from the file system on every call, so
  its answer is not a function of the source text alone: the model indexes it by the stage
  (0 to 3) in which the call is made; \<open>Inl\<close> is the exception it raises. \<open>run_match n\<close>
  is \<open>build_runner(n).run_match\<close> followed by \<open>extract_per_seed_edges\<close>. The adapter
  type \<open>'a\<close> is opaque.
\<close>

record 'a collaborators =
  static_sym_template :: string
  generate_strategy :: "string \<Rightarrow> (string \<times> string) list \<Rightarrow> string"
  compile_source :: "nat \<Rightarrow> string \<Rightarrow> py_error + 'a"
  get_name :: "'a \<Rightarrow> string"
  run_match :: "nat \<Rightarrow> 'a \<Rightarrow> real list"
  erfc_fn :: "real \<Rightarrow> real"

text \<open>What \<open>run_search\<close> prints, one constructor for each kind of line.\<close>

datatype line =
    StageHeader nat nat
  | BaselineMeanLine pyfloat
  | CompileFailedLine string string
  | CandidateLine entry
  | StageSummary nat nat nat
  | PromotedLine entry
  | NoSurvivors
  | NoPositiveDelta
  | FinalSummaryHeader pyfloat
  | NoCandidatesToReport
  | RankingLine entry
  | RecommendUse string pyfloat pyfloat
  | MarginalImprovement string pyfloat
  | ConsiderSubmitting
  | NoCandidateBeats
  | RecommendBaseline

text \<open>
  \<open>list.sort(key=..., reverse=True)\<close>: a stable sort into descending key order. It is
  written with the comparison \<open><\<close> on keys alone, as Python's sort is; an element goes in
  front of the first element whose key it is not below, so equal keys keep their order.
\<close>

fun insert_desc :: "('a \<Rightarrow> pyfloat) \<Rightarrow> 'a \<Rightarrow> 'a list \<Rightarrow> 'a list" where
  "insert_desc key x [] = [x]"
| "insert_desc key x (y # ys) =
     (if fl_lt (key x) (key y) then y # insert_desc key x ys else x # y # ys)"

definition sort_desc :: "('a \<Rightarrow> pyfloat) \<Rightarrow> 'a list \<Rightarrow> 'a list" where
  "sort_desc key xs = foldr (insert_desc key) xs []"

text \<open>
  Stage 1, after the loop: sort by mean delta descending, drop everything with mean delta
  below -5, keep the first eight.
\<close>

definition survives :: "entry \<Rightarrow> bool" where
  "survives s = fl_ge (mean_delta s) (Fin (- 5))"

definition stage1_promote :: "entry list \<Rightarrow> entry list" where
  "stage1_promote stage1_results =
     (let sorted_results = sort_desc mean_delta stage1_results;
          filtered = filter survives sorted_results
      in take 8 filtered)"

text \<open>
  Stage 2, after the loop: sort, stop when no mean delta is positive, otherwise keep the
  first three of the positive ones. \<open>None\<close> is the stop.
\<close>

definition positive :: "entry \<Rightarrow> bool" where
  "positive s = fl_gt (mean_delta s) (Fin 0)"

definition stage2_promote :: "entry list \<Rightarrow> entry list option" where
  "stage2_promote stage2_results =
     (let sorted_results = sort_desc mean_delta stage2_results;
          any_positive = list_ex positive sorted_results
      in if \<not> any_positive then None
         else Some (take 3 (filter positive sorted_results)))"

text \<open>\<open>_print_final_summary\<close>, as the list of lines it prints.\<close>

definition fl_abs :: "pyfloat \<Rightarrow> pyfloat" where
  "fl_abs x = fl_map abs x"

definition print_final_summary :: "entry list \<Rightarrow> pyfloat \<Rightarrow> line list" where
  "print_final_summary results base_mean' =
     FinalSummaryHeader base_mean' #
     (case results of
        [] \<Rightarrow> [NoCandidatesToReport, RecommendBaseline]
      | best # _ \<Rightarrow>
          map RankingLine results @
          (if fl_gt (mean_delta best) (Fin 3) \<and> fl_gt (fl_abs (t_stat best)) (Fin 1.5)
           then [RecommendUse (candidate best) (mean_delta best) (t_stat best)]
           else if fl_gt (mean_delta best) (Fin 0)
           then [MarginalImprovement (candidate best) (mean_delta best), ConsiderSubmitting]
           else [NoCandidateBeats, RecommendBaseline]))"

text \<open>The lines of a summary that state a recommendation.\<close>

fun is_recommendation :: "line \<Rightarrow> bool" where
  "is_recommendation (RecommendUse c d t) = True"
| "is_recommendation (MarginalImprovement c d) = True"
| "is_recommendation RecommendBaseline = True"
| "is_recommendation _ = False"

text \<open>
  The Stage 1 loop. A compile failure is caught: it prints a line and the loop goes on
  with the next candidate. An exception of \<open>paired_compare\<close> is not caught. The result
  is the list \<open>stage1_results\<close> and the lines printed.
\<close>

fun stage1_loop ::
  "'a collaborators \<Rightarrow> nat \<Rightarrow> real list \<Rightarrow> cand_def list \<Rightarrow> py_error + entry list \<times> line list"
where
  "stage1_loop c sims base_edges [] = Inr ([], [])"
| "stage1_loop c sims base_edges (d # ds) =
     (case compile_source c 1 (generate_strategy c (template d) (params d)) of
        Inl e \<Rightarrow>
          (case stage1_loop c sims base_edges ds of
             Inl x \<Rightarrow> Inl x
           | Inr (rs, ls) \<Rightarrow>
               Inr (rs, CompileFailedLine (cand_name d)
                          (case e of CompileError m \<Rightarrow> m | ValueError \<Rightarrow> ''ValueError'') # ls))
      | Inr adapter \<Rightarrow>
          (case paired_compare (erfc_fn c) (run_match c sims adapter) base_edges of
             Inl x \<Rightarrow> Inl x
           | Inr st \<Rightarrow>
               (let s = tag_stats st (get_name c adapter) ''Static_80'' d
                in case stage1_loop c sims base_edges ds of
                     Inl x \<Rightarrow> Inl x
                   | Inr (rs, ls) \<Rightarrow> Inr (s # rs, CandidateLine s # ls))))"

text \<open>
  The loops of Stage 2 and Stage 3 over the promoted results: the same body without the
  \<open>try\<close>, so an exception of \<open>compile_source\<close> leaves the loop and \<open>run_search\<close>.
\<close>

fun rerun_loop ::
  "'a collaborators \<Rightarrow> nat \<Rightarrow> nat \<Rightarrow> real list \<Rightarrow> entry list \<Rightarrow> py_error + entry list \<times> line list"
where
  "rerun_loop c stage sims base_edges [] = Inr ([], [])"
| "rerun_loop c stage sims base_edges (s1 # ss) =
     (case compile_source c stage
             (generate_strategy c (template (cdef s1)) (params (cdef s1))) of
        Inl e \<Rightarrow> Inl e
      | Inr adapter \<Rightarrow>
          (case paired_compare (erfc_fn c) (run_match c sims adapter) base_edges of
             Inl x \<Rightarrow> Inl x
           | Inr st \<Rightarrow>
               (let s = tag_stats st (get_name c adapter) ''Static_80'' (cdef s1)
                in case rerun_loop c stage sims base_edges ss of
                     Inl x \<Rightarrow> Inl x
                   | Inr (rs, ls) \<Rightarrow> Inr (s # rs, CandidateLine s # ls))))"

text \<open>
  \<open>run_search\<close> over a list of candidates: the lines printed when it returns, or the
  exception that ends it.
\<close>

definition run_search ::
  "'a collaborators \<Rightarrow> cand_def list \<Rightarrow> nat \<Rightarrow> nat \<Rightarrow> nat \<Rightarrow> py_error + line list" where
  "run_search c candidates stage1_sims stage2_sims stage3_sims =
     (case compile_source c 0
             (generate_strategy c (static_sym_template c) [(''bps'', ''80'')]) of
        Inl e \<Rightarrow> Inl e
      | Inr baseline' \<Rightarrow>
         (let base_edges = run_match c stage1_sims baseline';
              base_mean' = np_mean base_edges;
              out0 = [StageHeader 0 stage1_sims, BaselineMeanLine base_mean',
                      StageHeader 1 stage1_sims]
          in (case stage1_loop c stage1_sims base_edges candidates of
                Inl e \<Rightarrow> Inl e
              | Inr (stage1_results, log1) \<Rightarrow>
                 (let promoted = stage1_promote stage1_results;
                      out1 = out0 @ log1 @
                        [StageSummary 1 (length stage1_results) (length promoted)] @
                        map PromotedLine promoted
                  in if promoted = [] then
                       Inr (out1 @ [NoSurvivors] @ print_final_summary [] base_mean')
                     else
                      (let base_edges2 = run_match c stage2_sims baseline'
                       in (case rerun_loop c 2 stage2_sims base_edges2 promoted of
                             Inl e \<Rightarrow> Inl e
                           | Inr (stage2_results, log2) \<Rightarrow>
                              (let out2 = out1 @ [StageHeader 2 stage2_sims] @ log2
                               in (case stage2_promote stage2_results of
                                     None \<Rightarrow>
                                       Inr (out2 @ [NoPositiveDelta] @
                                            print_final_summary
                                              (sort_desc mean_delta stage2_results) base_mean')
                                   | Some promoted2 \<Rightarrow>
                                      (let out3 = out2 @
                                             [StageSummary 2 (length stage2_results)
                                                (length promoted2)] @
                                             map PromotedLine promoted2 @
                                             [StageHeader 3 stage3_sims];
                                           base_edges3 = run_match c stage3_sims baseline'
                                       in (case rerun_loop c 3 stage3_sims base_edges3
                                                  promoted2 of
                                             Inl e \<Rightarrow> Inl e
                                           | Inr (stage3_results, log3) \<Rightarrow>
                                               Inr (out3 @ log3 @
                                                    print_final_summary
                                                      (sort_desc mean_delta stage3_results)
                                                      (np_mean base_edges3))))))))))))"

text \<open>Descending order of keys, as a relation between neighbours of a sorted list.\<close>

definition desc_order :: "('a \<Rightarrow> pyfloat) \<Rightarrow> 'a \<Rightarrow> 'a \<Rightarrow> bool" where
  "desc_order key a b = fl_ge (key a) (key b)"

text \<open>
  Stage results and collaborators to run the protocol on. \<open>sample_entry nm d\<close> is a
  result with mean delta \<open>d\<close> and t statistic \<open>t\<close> for the candidate \<open>nm\<close>. In the
  collaborators an adapter is the source text, the template is the source, and a strategy
  earns the same edge on every seed: 0 for the baseline, 1 for \<open>up\<close>, -1 for everything
  else. \<open>steady\<close> compiles everything but the source \<open>bad\<close>; \<open>flaky k\<close> differs from it in
  stage \<open>k\<close> alone, where its compiler fails on every source.
\<close>

definition sample_def :: "string \<Rightarrow> cand_def" where
  "sample_def nm = \<lparr>cand_name = nm, family = ''StaticAsym'', template = nm, params = []\<rparr>"

definition sample_entry :: "string \<Rightarrow> real \<Rightarrow> real \<Rightarrow> entry" where
  "sample_entry nm d t =
     \<lparr>stat_n = 200, cand_mean = Fin (d + 100), base_mean = Fin 100, mean_delta = Fin d,
      se = Fin 1, t_stat = Fin t, p_value = Fin (1/2), win_rate = Fin (1/2),
      candidate = nm, baseline = ''Static_80'', cdef = sample_def nm\<rparr>"

text \<open>Eleven Stage 1 results, one of them at -6 and ten at -3 or above.\<close>

definition demo :: "entry list" where
  "demo = [sample_entry ''c1'' 1 0, sample_entry ''c2'' (- 6) 0, sample_entry ''c3'' 3 0,
     sample_entry ''c4'' 2 0, sample_entry ''c5'' 0 0, sample_entry ''c6'' (- 1) 0,
     sample_entry ''c7'' 5 0, sample_entry ''c8'' 4 0, sample_entry ''c9'' (- 2) 0,
     sample_entry ''c10'' (- 3) 0, sample_entry ''c11'' 7 0]"

definition edge_of :: "string \<Rightarrow> real" where
  "edge_of a = (if a = ''base'' then 0 else if a = ''up'' then 1 else - 1)"

definition steady :: "string collaborators" where
  "steady =
     \<lparr>static_sym_template = ''base'',
      generate_strategy = (\<lambda>t ps. t),
      compile_source = (\<lambda>stage src. if src = ''bad'' then Inl (CompileError ''syntax error'')
                                      else Inr src),
      get_name = (\<lambda>a. a),
      run_match = (\<lambda>n a. replicate n (edge_of a)),
      erfc_fn = (\<lambda>x. 1)\<rparr>"

definition flaky :: "nat \<Rightarrow> string collaborators" where
  "flaky k =
     steady\<lparr>compile_source :=
       (\<lambda>stage src. if stage = k then Inl (CompileError ''solc failed'')
                     else compile_source steady stage src)\<rparr>"

text \<open>
  The stage result of the strategy \<open>a\<close> against the baseline under \<open>steady\<close> with one
  simulation per run.
\<close>

definition steady_entry :: "string \<Rightarrow> entry" where
  "steady_entry a =
     \<lparr>stat_n = 1, cand_mean = Fin (edge_of a), base_mean = Fin 0,
      mean_delta = Fin (edge_of a), se = Fin 0, t_stat = Fin 0, p_value = Fin 1,
      win_rate = Fin (if edge_of a > 0 then 1 else 0),
      candidate = a, baseline = ''Static_80'', cdef = sample_def a\<rparr>"

text \<open>The lines that the loops of the three stages print.\<close>

fun is_progress_line :: "line \<Rightarrow> bool" where
  "is_progress_line (CandidateLine s) = True"
| "is_progress_line (CompileFailedLine nm m) = True"
| "is_progress_line _ = False"

section \<open>Properties of the Elo rating system\<close>

subsection \<open>The rating map under the operations\<close>

lemma ratings_modify:
  "ratings (modify nm f s) q = (if q = nm then map_option f (ratings s q) else ratings s q)"
  by (cases "ratings s nm") (simp_all add: modify_def)

lemma ratings_get_rating:
  "ratings (snd (get_rating s nm)) q =
     (if q = nm \<and> ratings s nm = None then Some (new_player s nm) else ratings s q)"
  by (cases "ratings s nm") (simp_all add: get_rating_def)

lemma params_get_rating:
  "initial_rating (snd (get_rating s nm)) = initial_rating s"
  "k_factor (snd (get_rating s nm)) = k_factor s"
  "mov_factor (snd (get_rating s nm)) = mov_factor s"
  by (cases "ratings s nm"; simp add: get_rating_def)+

lemma obj_get_rating: "obj (snd (get_rating s nm)) q = obj s q"
  by (cases "ratings s nm")
    (simp_all add: obj_def get_rating_def new_player_def split: option.splits)

lemma snd_tag: "snd (case x of (r, s') \<Rightarrow> (Inr r, s')) = snd x"
  by (cases x) simp

lemma fst_tag: "fst (case x of (r, s') \<Rightarrow> (Inr r, s')) = Inr (fst x)"
  by (cases x) simp

subsection \<open>The margin multiplier\<close>

lemma margin_multiplier_formula:
  assumes "t \<noteq> 0" "0 < 1 + 2 * margin_of w l t"
  shows "margin_multiplier s w l t = Inr (1 + mov_factor s * ln (1 + 2 * margin_of w l t))"
  using assms by (simp add: margin_multiplier_def py_log_def Let_def margin_of_def mult.commute)

lemma margin_multiplier_raises:
  assumes "t \<noteq> 0" "1 + 2 * margin_of w l t \<le> 0"
  shows "margin_multiplier s w l t = Inl ValueError"
  using assms by (simp add: margin_multiplier_def py_log_def Let_def margin_of_def mult.commute)

lemma valid_margin_nonneg:
  "valid_margin_input s w l t \<Longrightarrow> 0 \<le> margin_of w l t \<and> margin_of w l t \<le> 1"
  by (simp add: valid_margin_input_def margin_of_def)

lemma margin_multiplier_valid:
  assumes "valid_margin_input s w l t"
  shows "margin_multiplier s w l t = Inr (1 + mov_factor s * ln (1 + 2 * margin_of w l t))"
proof -
  have "0 \<le> margin_of w l t" using valid_margin_nonneg[OF assms] by simp
  then have "0 < 1 + 2 * margin_of w l t" by simp
  moreover have "t \<noteq> 0" using assms by (simp add: valid_margin_input_def)
  ultimately show ?thesis by (rule margin_multiplier_formula[rotated])
qed

lemma margin_term_mono:
  fixes k :: real
  assumes "0 \<le> k" "0 \<le> x" "x \<le> y"
  shows "1 + k * ln (1 + 2 * x) \<le> 1 + k * ln (1 + 2 * y)"
proof -
  have "ln (1 + 2 * x) \<le> ln (1 + 2 * y)" using assms by simp
  then show ?thesis using assms(1) by (simp add: mult_left_mono)
qed

lemma margin_term_strict_mono:
  fixes k :: real
  assumes "0 < k" "0 \<le> x" "x < y"
  shows "1 + k * ln (1 + 2 * x) < 1 + k * ln (1 + 2 * y)"
proof -
  have "ln (1 + 2 * x) < ln (1 + 2 * y)" using assms by simp
  then show ?thesis using assms(1) by simp
qed

text \<open>
  Claim C7. \<open>margin_multiplier\<close> returns 1 when \<open>total_games\<close> is 0 and otherwise
  \<open>1 + mov_factor * ln (1 + 2 * margin)\<close> with
  \<open>margin = (winner_score - loser_score) / total_games\<close> (wherever that logarithm
  exists). On every valid input the call returns, the result is at least 1, it is exactly 1
  at zero margin, and it grows with the margin: weakly for \<open>mov_factor \<ge> 0\<close>, strictly
  for \<open>mov_factor > 0\<close>.
\<close>

theorem margin_multiplier_spec:
  "margin_multiplier s w l 0 = Inr 1 \<and>
   (t \<noteq> 0 \<and> 0 < 1 + 2 * margin_of w l t \<longrightarrow>
      margin_multiplier s w l t = Inr (1 + mov_factor s * ln (1 + 2 * margin_of w l t))) \<and>
   (valid_margin_input s w l t \<longrightarrow>
      (\<exists>v. margin_multiplier s w l t = Inr v \<and> 1 \<le> v)) \<and>
   (valid_margin_input s w l t \<and> w = l \<longrightarrow> margin_multiplier s w l t = Inr 1) \<and>
   (valid_margin_input s w l t \<and> valid_margin_input s w' l' t' \<and>
    margin_of w l t \<le> margin_of w' l' t' \<longrightarrow>
      (\<exists>v v'. margin_multiplier s w l t = Inr v \<and> margin_multiplier s w' l' t' = Inr v' \<and>
         v \<le> v')) \<and>
   (valid_margin_input s w l t \<and> valid_margin_input s w' l' t' \<and> 0 < mov_factor s \<and>
    margin_of w l t < margin_of w' l' t' \<longrightarrow>
      (\<exists>v v'. margin_multiplier s w l t = Inr v \<and> margin_multiplier s w' l' t' = Inr v' \<and>
         v < v'))"
proof (intro conjI impI)
  show "margin_multiplier s w l 0 = Inr 1"
    by (simp add: margin_multiplier_def)
next
  assume "t \<noteq> 0 \<and> 0 < 1 + 2 * margin_of w l t"
  then show "margin_multiplier s w l t = Inr (1 + mov_factor s * ln (1 + 2 * margin_of w l t))"
    by (simp add: margin_multiplier_formula)
next
  assume v: "valid_margin_input s w l t"
  have "0 \<le> margin_of w l t" using valid_margin_nonneg[OF v] by simp
  then have "0 \<le> ln (1 + 2 * margin_of w l t)" by simp
  moreover have "0 \<le> mov_factor s" using v by (simp add: valid_margin_input_def)
  ultimately have "0 \<le> mov_factor s * ln (1 + 2 * margin_of w l t)" by simp
  then show "\<exists>v. margin_multiplier s w l t = Inr v \<and> 1 \<le> v"
    by (simp add: margin_multiplier_valid[OF v])
next
  assume "valid_margin_input s w l t \<and> w = l"
  then have v: "valid_margin_input s w l t" and z: "margin_of w l t = 0"
    by (auto simp: margin_of_def)
  show "margin_multiplier s w l t = Inr 1"
    by (simp add: margin_multiplier_valid[OF v] z)
next
  assume a: "valid_margin_input s w l t \<and> valid_margin_input s w' l' t' \<and>
    margin_of w l t \<le> margin_of w' l' t'"
  then have v: "valid_margin_input s w l t" and v': "valid_margin_input s w' l' t'"
    and le: "margin_of w l t \<le> margin_of w' l' t'" by simp_all
  have "0 \<le> mov_factor s" using v by (simp add: valid_margin_input_def)
  moreover have "0 \<le> margin_of w l t" using valid_margin_nonneg[OF v] by simp
  ultimately have "1 + mov_factor s * ln (1 + 2 * margin_of w l t)
      \<le> 1 + mov_factor s * ln (1 + 2 * margin_of w' l' t')"
    using le by (rule margin_term_mono)
  then show "\<exists>v v'. margin_multiplier s w l t = Inr v \<and>
      margin_multiplier s w' l' t' = Inr v' \<and> v \<le> v'"
    by (simp add: margin_multiplier_valid[OF v] margin_multiplier_valid[OF v'])
next
  assume a: "valid_margin_input s w l t \<and> valid_margin_input s w' l' t' \<and>
    0 < mov_factor s \<and> margin_of w l t < margin_of w' l' t'"
  then have v: "valid_margin_input s w l t" and v': "valid_margin_input s w' l' t'"
    and k: "0 < mov_factor s" and lt: "margin_of w l t < margin_of w' l' t'" by simp_all
  have "0 \<le> margin_of w l t" using valid_margin_nonneg[OF v] by simp
  with k have "1 + mov_factor s * ln (1 + 2 * margin_of w l t)
      < 1 + mov_factor s * ln (1 + 2 * margin_of w' l' t')"
    using lt by (rule margin_term_strict_mono)
  then show "\<exists>v v'. margin_multiplier s w l t = Inr v \<and>
      margin_multiplier s w' l' t' = Inr v' \<and> v < v'"
    by (simp add: margin_multiplier_valid[OF v] margin_multiplier_valid[OF v'])
qed

text \<open>
  The theorem at a 3:1 result and a 4:0 result over four games, with the default
  \<open>mov_factor\<close> of one half: both calls return, and the multiplier of the larger margin
  is strictly larger.
\<close>

theorem margin_multiplier_spec_witness:
  "valid_margin_input sample_elo 3 1 4 \<and> valid_margin_input sample_elo 4 0 4 \<and>
   0 < mov_factor sample_elo \<and> margin_of 3 1 4 < margin_of 4 0 4 \<and>
   (\<exists>v. margin_multiplier sample_elo 3 1 4 = Inr v \<and> 1 \<le> v) \<and>
   (\<exists>v v'. margin_multiplier sample_elo 3 1 4 = Inr v \<and>
      margin_multiplier sample_elo 4 0 4 = Inr v' \<and> v < v') \<and>
   valid_margin_input sample_elo 2 2 4 \<and> margin_multiplier sample_elo 2 2 4 = Inr 1"
proof -
  have v1: "valid_margin_input sample_elo 3 1 4" and v2: "valid_margin_input sample_elo 4 0 4"
    and v3: "valid_margin_input sample_elo 2 2 4" and k: "0 < mov_factor sample_elo"
    by (simp_all add: valid_margin_input_def sample_elo_def)
  have lt: "margin_of 3 1 4 < margin_of 4 0 4" by (simp add: margin_of_def)
  have s1: "\<exists>v. margin_multiplier sample_elo 3 1 4 = Inr v \<and> 1 \<le> v"
    using margin_multiplier_spec[of sample_elo 3 1 4 4 0 4] v1 by blast
  have s2: "\<exists>v v'. margin_multiplier sample_elo 3 1 4 = Inr v \<and>
      margin_multiplier sample_elo 4 0 4 = Inr v' \<and> v < v'"
    using margin_multiplier_spec[of sample_elo 3 1 4 4 0 4] v1 v2 k lt by blast
  have s3: "margin_multiplier sample_elo 2 2 4 = Inr 1"
    using margin_multiplier_spec[of sample_elo 2 2 4 2 2 4] v3 by blast
  show ?thesis using v1 v2 v3 k lt s1 s2 s3 by blast
qed

subsection \<open>Zero total score\<close>

lemma update_ratings_zero:
  assumes "score_a + score_b = 0"
  shows "update_ratings s a b score_a score_b =
     (Inr (rating (obj s a), rating (obj s b)), snd (get_rating (snd (get_rating s a)) b))"
  using assms by (simp add: update_ratings_def Let_def obj_get_rating)

text \<open>
  Claim C8. A call of \<open>update_ratings\<close> with \<open>score_a + score_b = 0\<close> changes no rating and
  no counter: every name reads the same player object after the call as before it (a name
  not yet known reads as a fresh player with the initial rating and zero counters both
  times), every stored player is unchanged, and the call returns the two current ratings.
\<close>

theorem update_ratings_zero_total_noop:
  assumes "score_a + score_b = 0"
  shows "fst (update_ratings s a b score_a score_b) = Inr (rating (obj s a), rating (obj s b)) \<and>
    (\<forall>q. obj (snd (update_ratings s a b score_a score_b)) q = obj s q) \<and>
    (\<forall>q p. ratings s q = Some p \<longrightarrow>
       ratings (snd (update_ratings s a b score_a score_b)) q = Some p)"
  by (simp add: update_ratings_zero[OF assms] obj_get_rating ratings_get_rating
      params_get_rating)

theorem update_ratings_zero_total_noop_witness:
  "(3::int) + (-3) = 0 \<and> ratings sample_elo ''alice'' \<noteq> None \<and>
   fst (update_ratings sample_elo ''alice'' ''bob'' 3 (-3)) = Inr (1600, 1500) \<and>
   obj (snd (update_ratings sample_elo ''alice'' ''bob'' 3 (-3))) ''alice'' =
     \<lparr>name = ''alice'', rating = 1600, matches_played = 3, wins = 2, losses = 1, draws = 0\<rparr> \<and>
   ratings (snd (update_ratings sample_elo ''alice'' ''bob'' 3 (-3))) ''alice'' =
     ratings sample_elo ''alice''"
proof -
  have h: "(3::int) + (-3) = 0" by simp
  have a: "ratings sample_elo ''alice'' = Some
     \<lparr>name = ''alice'', rating = 1600, matches_played = 3, wins = 2, losses = 1, draws = 0\<rparr>"
    by (simp add: sample_elo_def)
  have b: "ratings sample_elo ''bob'' = None" by (simp add: sample_elo_def)
  have o: "obj sample_elo ''alice'' =
     \<lparr>name = ''alice'', rating = 1600, matches_played = 3, wins = 2, losses = 1, draws = 0\<rparr>"
    "rating (obj sample_elo ''bob'') = 1500"
    by (simp_all add: obj_def a b new_player_def) (simp add: sample_elo_def)
  from update_ratings_zero_total_noop[OF h, of sample_elo "''alice''" "''bob''"] a o
  show ?thesis by simp
qed

text \<open>
  Claim C10. On the zero-total path \<open>update_ratings\<close> still goes through \<open>get_rating\<close>:
  called with two names that are not in the rating map, it leaves both in the map with the
  initial rating and zero counters, returns the initial rating twice, and the set of known
  players has grown by exactly these names.
\<close>

theorem update_ratings_zero_total_inserts:
  assumes "score_a + score_b = 0" "ratings s a = None" "ratings s b = None"
  shows "ratings (snd (update_ratings s a b score_a score_b)) a = Some (new_player s a) \<and>
    ratings (snd (update_ratings s a b score_a score_b)) b = Some (new_player s b) \<and>
    rating (new_player s a) = initial_rating s \<and> rating (new_player s b) = initial_rating s \<and>
    matches_played (new_player s a) = 0 \<and> wins (new_player s a) = 0 \<and>
    losses (new_player s a) = 0 \<and> draws (new_player s a) = 0 \<and>
    matches_played (new_player s b) = 0 \<and> wins (new_player s b) = 0 \<and>
    losses (new_player s b) = 0 \<and> draws (new_player s b) = 0 \<and>
    fst (update_ratings s a b score_a score_b) = Inr (initial_rating s, initial_rating s) \<and>
    dom (ratings (snd (update_ratings s a b score_a score_b))) = dom (ratings s) \<union> {a, b} \<and>
    dom (ratings s) \<subset> dom (ratings (snd (update_ratings s a b score_a score_b)))"
proof -
  let ?s' = "snd (update_ratings s a b score_a score_b)"
  have r: "ratings ?s' q =
      (if q = b then Some (new_player s b) else if q = a then Some (new_player s a)
       else ratings s q)" for q
    using assms(2,3)
    by (simp add: update_ratings_zero[OF assms(1)] ratings_get_rating new_player_def
        params_get_rating)
  have d: "dom (ratings ?s') = dom (ratings s) \<union> {a, b}"
    by (auto simp: r dom_def)
  have "a \<notin> dom (ratings s)" using assms(2) by (simp add: dom_def)
  with d have sub: "dom (ratings s) \<subset> dom (ratings ?s')" by auto
  have ret: "fst (update_ratings s a b score_a score_b) = Inr (initial_rating s, initial_rating s)"
    using assms(2,3) by (simp add: update_ratings_zero[OF assms(1)] obj_def new_player_def)
  show ?thesis using d sub ret by (simp add: r) (simp add: new_player_def)
qed

theorem update_ratings_zero_total_inserts_witness:
  "(0::int) + 0 = 0 \<and> ratings sample_elo ''bob'' = None \<and> ratings sample_elo ''carol'' = None \<and>
   ratings (snd (update_ratings sample_elo ''bob'' ''carol'' 0 0)) ''bob'' =
     Some \<lparr>name = ''bob'', rating = 1500, matches_played = 0, wins = 0, losses = 0, draws = 0\<rparr> \<and>
   fst (update_ratings sample_elo ''bob'' ''carol'' 0 0) = Inr (1500, 1500) \<and>
   dom (ratings (snd (update_ratings sample_elo ''bob'' ''carol'' 0 0))) =
     {''alice'', ''bob'', ''carol''}"
proof -
  have h: "(0::int) + 0 = 0" by simp
  have b: "ratings sample_elo ''bob'' = None" and c: "ratings sample_elo ''carol'' = None"
    by (simp_all add: sample_elo_def)
  have i: "initial_rating sample_elo = 1500" and d: "dom (ratings sample_elo) = {''alice''}"
    by (simp_all add: sample_elo_def)
  from update_ratings_zero_total_inserts[OF h b c] b c i d
  show ?thesis by (auto simp: new_player_def)
qed

subsection \<open>The counter invariant\<close>

lemma counters_ok_excess: "counters_ok p \<longleftrightarrow> excess p = 0"
  by (auto simp: counters_ok_def excess_def)

lemma apply_update_counters:
  assumes "ratings (snd (apply_update s a b x y m)) q = Some p'"
  shows "\<exists>p. ratings s q = Some p \<and> wins p' = wins p \<and> losses p' = losses p \<and>
     draws p' = draws p \<and> matches_played p' = matches_played p + bump a b q"
proof (cases "ratings s q")
  case None
  with assms show ?thesis
    by (simp add: apply_update_def Let_def ratings_modify split: if_splits)
next
  case (Some p)
  with assms show ?thesis
    by (auto simp: apply_update_def Let_def ratings_modify bump_def split: if_splits)
qed

lemma apply_update_excess:
  assumes "ratings (snd (apply_update s a b x y m)) q = Some p'"
  shows "\<exists>p. ratings s q = Some p \<and> excess p' = excess p - bump a b q"
  using apply_update_counters[OF assms] by (auto simp: excess_def)

lemma two_modify_excess:
  assumes "ratings (modify b g (modify a f s)) q = Some p'"
    and "\<And>p. excess (f p) = excess p + 1" "\<And>p. excess (g p) = excess p + 1"
  shows "\<exists>p. ratings s q = Some p \<and> excess p' = excess p + bump a b q"
  using assms by (cases "ratings s q") (auto simp: ratings_modify bump_def split: if_splits)

lemma update_ratings_excess:
  assumes ok: "fst (update_ratings s a b sa sb) = Inr r"
    and p': "ratings (snd (update_ratings s a b sa sb)) q = Some p'"
  shows "\<exists>p. ratings (snd (get_rating (snd (get_rating s a)) b)) q = Some p \<and>
    excess p' = excess p"
proof -
  let ?s2 = "snd (get_rating (snd (get_rating s a)) b)"
  consider (zero) "sa + sb = 0" | (a_wins) "sa + sb \<noteq> 0" "sa > sb"
    | (b_wins) "sa + sb \<noteq> 0" "sb > sa" | (draw) "sa + sb \<noteq> 0" "sa = sb"
    by linarith
  then show ?thesis
  proof cases
    case zero
    with p' show ?thesis by (simp add: update_ratings_def Let_def)
  next
    case a_wins
    let ?s4 = "modify b (\<lambda>p. p\<lparr>losses := losses p + 1\<rparr>)
      (modify a (\<lambda>p. p\<lparr>wins := wins p + 1\<rparr>) ?s2)"
    from ok a_wins obtain m where m: "margin_multiplier ?s4 sa sb (sa + sb) = Inr m"
      by (auto simp: update_ratings_def Let_def split: sum.splits)
    with p' a_wins have "ratings (snd (apply_update ?s4 a b 1 0 m)) q = Some p'"
      by (simp add: update_ratings_def Let_def snd_tag)
    from apply_update_excess[OF this] obtain p4 where
      p4: "ratings ?s4 q = Some p4" "excess p' = excess p4 - bump a b q" by blast
    from two_modify_excess[OF p4(1)] obtain p where
      "ratings ?s2 q = Some p" "excess p4 = excess p + bump a b q"
      by (auto simp: excess_def)
    with p4 show ?thesis by simp
  next
    case b_wins
    let ?s4 = "modify b (\<lambda>p. p\<lparr>wins := wins p + 1\<rparr>)
      (modify a (\<lambda>p. p\<lparr>losses := losses p + 1\<rparr>) ?s2)"
    from ok b_wins obtain m where m: "margin_multiplier ?s4 sb sa (sa + sb) = Inr m"
      by (auto simp: update_ratings_def Let_def split: sum.splits)
    with p' b_wins have "ratings (snd (apply_update ?s4 a b 0 1 m)) q = Some p'"
      by (simp add: update_ratings_def Let_def snd_tag)
    from apply_update_excess[OF this] obtain p4 where
      p4: "ratings ?s4 q = Some p4" "excess p' = excess p4 - bump a b q" by blast
    from two_modify_excess[OF p4(1)] obtain p where
      "ratings ?s2 q = Some p" "excess p4 = excess p + bump a b q"
      by (auto simp: excess_def)
    with p4 show ?thesis by simp
  next
    case draw
    let ?s4 = "modify b (\<lambda>p. p\<lparr>draws := draws p + 1\<rparr>)
      (modify a (\<lambda>p. p\<lparr>draws := draws p + 1\<rparr>) ?s2)"
    from p' draw have "ratings (snd (apply_update ?s4 a b (1/2) (1/2) 1)) q = Some p'"
      by (simp add: update_ratings_def Let_def snd_tag)
    from apply_update_excess[OF this] obtain p4 where
      p4: "ratings ?s4 q = Some p4" "excess p' = excess p4 - bump a b q" by blast
    from two_modify_excess[OF p4(1)] obtain p where
      "ratings ?s2 q = Some p" "excess p4 = excess p + bump a b q"
      by (auto simp: excess_def)
    with p4 show ?thesis by simp
  qed
qed

lemma elo_inv_init: "elo_inv (EloRating_init ir k m)"
  by (simp add: elo_inv_def EloRating_init_def)

lemma elo_inv_get_rating: "elo_inv s \<Longrightarrow> elo_inv (snd (get_rating s nm))"
  by (auto simp: elo_inv_def ratings_get_rating counters_ok_def new_player_def
      split: if_splits)

lemma elo_inv_update_ratings:
  assumes "elo_inv s" "fst (update_ratings s a b sa sb) = Inr r"
  shows "elo_inv (snd (update_ratings s a b sa sb))"
proof -
  have i2: "elo_inv (snd (get_rating (snd (get_rating s a)) b))"
    using assms(1) by (intro elo_inv_get_rating)
  show ?thesis
    unfolding elo_inv_def
  proof (intro allI impI)
    fix nm p' assume "ratings (snd (update_ratings s a b sa sb)) nm = Some p'"
    from update_ratings_excess[OF assms(2) this] i2 show "counters_ok p'"
      by (auto simp: elo_inv_def counters_ok_excess)
  qed
qed

lemma update_ratings_returns:
  assumes "0 \<le> sa" "0 \<le> sb"
  shows "\<exists>r. fst (update_ratings s a b sa sb) = Inr r"
proof -
  have mm: "\<exists>m. margin_multiplier s' w l (w + l) = Inr m" if "0 \<le> l" "l < w" for s' w l
  proof -
    define mg where "mg = real_of_int (w - l) / real_of_int (w + l)"
    have "0 < mg" unfolding mg_def using that by simp
    then have "0 < 1 + mg * 2" by simp
    moreover have "w + l \<noteq> 0" using that by simp
    ultimately show ?thesis
      unfolding margin_multiplier_def py_log_def Let_def mg_def by simp
  qed
  consider (zero) "sa + sb = 0" | (a_wins) "sa + sb \<noteq> 0" "sa > sb"
    | (b_wins) "sa + sb \<noteq> 0" "sb > sa" | (draw) "sa + sb \<noteq> 0" "sa = sb"
    by linarith
  then show ?thesis
  proof cases
    case zero then show ?thesis by (simp add: update_ratings_def Let_def)
  next
    case a_wins
    then obtain m where "margin_multiplier
        (modify b (\<lambda>p. p\<lparr>losses := losses p + 1\<rparr>) (modify a (\<lambda>p. p\<lparr>wins := wins p + 1\<rparr>)
          (snd (get_rating (snd (get_rating s a)) b)))) sa sb (sa + sb) = Inr m"
      using mm assms by blast
    with a_wins show ?thesis
      by (simp add: update_ratings_def Let_def fst_tag)
  next
    case b_wins
    then obtain m where "margin_multiplier
        (modify b (\<lambda>p. p\<lparr>wins := wins p + 1\<rparr>) (modify a (\<lambda>p. p\<lparr>losses := losses p + 1\<rparr>)
          (snd (get_rating (snd (get_rating s a)) b)))) sb sa (sb + sa) = Inr m"
      using mm assms by blast
    with b_wins show ?thesis
      by (simp add: update_ratings_def Let_def fst_tag add.commute)
  next
    case draw then show ?thesis by (simp add: update_ratings_def Let_def fst_tag)
  qed
qed

lemma reachable_elo_inv: "reachable s \<Longrightarrow> elo_inv s"
  by (induction rule: reachable.induct)
    (simp_all add: elo_inv_init elo_inv_get_rating elo_inv_update_ratings)

text \<open>
  Claim C9, as the code has it. The invariant \<open>wins + losses + draws = matches_played\<close>
  holds for every player of a fresh rating system, \<open>get_rating\<close> keeps it, and every call
  of \<open>update_ratings\<close> that returns keeps it; a call with non-negative scores always
  returns. So it holds in every rating system reachable through returning calls.
\<close>

theorem update_ratings_preserves_counters:
  "elo_inv (EloRating_init ir k m) \<and>
   (elo_inv s \<longrightarrow> elo_inv (snd (get_rating s nm))) \<and>
   (0 \<le> sa \<and> 0 \<le> sb \<longrightarrow> (\<exists>r. fst (update_ratings s a b sa sb) = Inr r)) \<and>
   (elo_inv s \<and> (\<exists>r. fst (update_ratings s a b sa sb) = Inr r) \<longrightarrow>
      elo_inv (snd (update_ratings s a b sa sb))) \<and>
   (reachable s \<longrightarrow> elo_inv s)"
  using elo_inv_init elo_inv_get_rating update_ratings_returns elo_inv_update_ratings
    reachable_elo_inv by blast

theorem update_ratings_preserves_counters_witness:
  "reachable (EloRating_init 1500 32 (1/2)) \<and> elo_inv (EloRating_init 1500 32 (1/2)) \<and>
   (0::int) \<le> 2 \<and> (0::int) \<le> 1 \<and>
   (\<exists>r. fst (update_ratings (EloRating_init 1500 32 (1/2)) ''a'' ''b'' 2 1) = Inr r) \<and>
   elo_inv (snd (update_ratings (EloRating_init 1500 32 (1/2)) ''a'' ''b'' 2 1)) \<and>
   elo_inv (snd (get_rating (EloRating_init 1500 32 (1/2)) ''a''))"
  using update_ratings_preserves_counters[of 1500 32 "1/2" "EloRating_init 1500 32 (1/2)"
      "''a''" 2 1 "''a''" "''b''"]
    reachable.init[of 1500 32 "1/2"]
  by simp

text \<open>
  The claim as written, for all inputs, fails: with a negative score the logarithm in
  \<open>margin_multiplier\<close> raises ValueError after the win and loss counters were incremented
  and before \<open>matches_played\<close> is. After \<open>update_ratings a b 0 (-1)\<close> on a fresh system
  player \<open>a\<close> has one win and no match played.
\<close>

theorem update_ratings_counters_counterexample:
  "elo_inv (EloRating_init 1500 32 (1/2)) \<and>
   fst (update_ratings (EloRating_init 1500 32 (1/2)) ''a'' ''b'' 0 (-1)) = Inl ValueError \<and>
   ratings (snd (update_ratings (EloRating_init 1500 32 (1/2)) ''a'' ''b'' 0 (-1))) ''a'' =
     Some \<lparr>name = ''a'', rating = 1500, matches_played = 0, wins = 1, losses = 0, draws = 0\<rparr> \<and>
   \<not> elo_inv (snd (update_ratings (EloRating_init 1500 32 (1/2)) ''a'' ''b'' 0 (-1)))"
proof -
  let ?s = "EloRating_init 1500 32 (1/2)"
  have u: "update_ratings ?s ''a'' ''b'' 0 (-1) =
    (Inl ValueError,
     ?s\<lparr>ratings := [''a'' \<mapsto> \<lparr>name = ''a'', rating = 1500, matches_played = 0, wins = 1,
                                losses = 0, draws = 0\<rparr>,
                      ''b'' \<mapsto> \<lparr>name = ''b'', rating = 1500, matches_played = 0, wins = 0,
                                losses = 1, draws = 0\<rparr>]\<rparr>)"
    by (simp add: update_ratings_def Let_def get_rating_def EloRating_init_def new_player_def
        modify_def margin_multiplier_def py_log_def)
  have "\<not> counters_ok \<lparr>name = ''a'', rating = 1500, matches_played = 0, wins = 1,
      losses = 0, draws = 0\<rparr>"
    by (simp add: counters_ok_def)
  then have n: "\<not> elo_inv (snd (update_ratings ?s ''a'' ''b'' 0 (-1)))"
    unfolding u elo_inv_def by (auto simp: EloRating_init_def)
  have e: "fst (update_ratings ?s ''a'' ''b'' 0 (-1)) = Inl ValueError"
    unfolding u by simp
  have r: "ratings (snd (update_ratings ?s ''a'' ''b'' 0 (-1))) ''a'' =
     Some \<lparr>name = ''a'', rating = 1500, matches_played = 0, wins = 1, losses = 0, draws = 0\<rparr>"
    unfolding u by simp
  show ?thesis using elo_inv_init[of 1500 32 "1/2"] n e r by blast
qed

section \<open>Properties of the paired comparison\<close>

lemma fl_gt_Fin [simp]: "fl_gt (Fin a) (Fin b) \<longleftrightarrow> b < a"
  by (simp add: fl_gt_def)

lemma deltas_of_map2:
  "length cand = length base \<Longrightarrow> deltas_of cand base = map2 (-) cand base"
  by (rule nth_equalityI) (simp_all add: deltas_of_def)

lemma np_sub_equal_length:
  "length cand = length base \<Longrightarrow> np_sub cand base = Inr (deltas_of cand base)"
  by (simp add: np_sub_def deltas_of_map2)

lemma np_mean_nonempty: "xs \<noteq> [] \<Longrightarrow> np_mean xs = Fin (arith_mean xs)"
  by (simp add: np_mean_def arith_mean_def)

lemma sum_list_indicator:
  "sum_list (map (\<lambda>d. if P d then 1 else 0) ds) = real (length (filter P ds))"
  by (induction ds) simp_all

lemma np_mean_wins:
  "ds \<noteq> [] \<Longrightarrow> np_mean (map (\<lambda>d. if d > 0 then 1 else 0) ds) = Fin (win_fraction ds)"
  by (simp add: np_mean_def win_fraction_def sum_list_indicator)

lemma np_std_sample_std:
  "1 < length ds \<Longrightarrow> np_std_ddof1 ds = Fin (sample_std ds)"
  by (simp add: np_std_ddof1_def sample_std_def arith_mean_def of_nat_diff)

lemma sample_std_single: "length ds \<le> 1 \<Longrightarrow> sample_std ds = 0"
  by (simp add: sample_std_def)

lemma paired_compare_general:
  assumes len: "length cand = length base" and n: "1 \<le> length cand"
  shows "paired_compare erfc cand base =
     Inr \<lparr>stat_n = length cand,
          cand_mean = Fin (arith_mean cand),
          base_mean = Fin (arith_mean base),
          mean_delta = Fin (arith_mean (deltas_of cand base)),
          se = Fin (std_error (deltas_of cand base)),
          t_stat = Fin (t_statistic (deltas_of cand base)),
          p_value = Fin (two_sided_p erfc (deltas_of cand base)),
          win_rate = Fin (win_fraction (deltas_of cand base))\<rparr>"
proof -
  let ?ds = "deltas_of cand base"
  have c: "cand \<noteq> []" using n by (cases cand) simp_all
  then have b: "base \<noteq> []" using len by (cases base) simp_all
  have d: "?ds \<noteq> []" using c by (simp add: deltas_of_def)
  have std: "(if 1 < length cand then np_std_ddof1 ?ds else Fin 0) = Fin (sample_std ?ds)"
    by (simp add: np_std_sample_std sample_std_single deltas_of_def)
  have pos: "0 < length cand" using c by simp
  have se: "(if 0 < length cand
      then fl_div (Fin (sample_std ?ds)) (Fin (sqrt (real (length cand)))) else Fin 0)
      = Fin (std_error ?ds)"
    using pos by (simp add: std_error_def deltas_of_def)
  show ?thesis
    unfolding paired_compare_def Let_def np_sub_equal_length[OF len] sum.case
      np_mean_nonempty[OF c] np_mean_nonempty[OF b] np_mean_nonempty[OF d]
      np_mean_wins[OF d] std se
    by (simp add: t_statistic_def two_sided_p_def)
qed

text \<open>
  Claim C1. For two edge sequences of equal length \<open>n \<ge> 1\<close>, \<open>paired_compare\<close> returns
  the mean of the per-index deltas, the standard error built from the sample standard
  deviation with divisor \<open>n - 1\<close> (0 for \<open>n = 1\<close>) over \<open>sqrt n\<close>, the t statistic
  \<open>mean / se\<close> when \<open>se > 0\<close> and 0 otherwise, the two-sided p-value
  \<open>2 * (1 - \<Phi> |t|)\<close> when \<open>se > 0\<close> and 1 otherwise, and as win rate the fraction of
  indices with a delta strictly above 0. For \<open>cand = [10, 12, 8]\<close> and
  \<open>base = [8, 8, 8]\<close> the mean delta is 2 and the win rate is 2/3.
\<close>

theorem paired_compare_spec:
  "(length cand = length base \<and> 1 \<le> length cand \<longrightarrow>
      paired_compare erfc cand base =
        Inr \<lparr>stat_n = length cand,
             cand_mean = Fin (arith_mean cand),
             base_mean = Fin (arith_mean base),
             mean_delta = Fin (arith_mean (deltas_of cand base)),
             se = Fin (std_error (deltas_of cand base)),
             t_stat = Fin (t_statistic (deltas_of cand base)),
             p_value = Fin (two_sided_p erfc (deltas_of cand base)),
             win_rate = Fin (win_fraction (deltas_of cand base))\<rparr>) \<and>
   (\<exists>st. paired_compare erfc [10, 12, 8] [8, 8, 8] = Inr st \<and>
      mean_delta st = Fin 2 \<and> win_rate st = Fin (2/3))"
proof (intro conjI impI)
  assume "length cand = length base \<and> 1 \<le> length cand"
  then show "paired_compare erfc cand base =
        Inr \<lparr>stat_n = length cand,
             cand_mean = Fin (arith_mean cand),
             base_mean = Fin (arith_mean base),
             mean_delta = Fin (arith_mean (deltas_of cand base)),
             se = Fin (std_error (deltas_of cand base)),
             t_stat = Fin (t_statistic (deltas_of cand base)),
             p_value = Fin (two_sided_p erfc (deltas_of cand base)),
             win_rate = Fin (win_fraction (deltas_of cand base))\<rparr>"
    by (simp add: paired_compare_general)
next
  show "\<exists>st. paired_compare erfc [10, 12, 8] [8, 8, 8] = Inr st \<and>
      mean_delta st = Fin 2 \<and> win_rate st = Fin (2/3)"
    using paired_compare_general[of "[10, 12, 8]" "[8, 8, 8]" erfc]
    by (simp add: arith_mean_def deltas_of_def win_fraction_def upt_rec)
qed

text \<open>
  The theorem at the two sequences \<open>[3, 5]\<close> and \<open>[1, 2]\<close>: the deltas are 2 and 3, their
  mean is 5/2, both seeds are wins, and the standard error is positive.
\<close>

theorem paired_compare_spec_witness:
  "length [3, 5 :: real] = length [1, 2 :: real] \<and> 1 \<le> length [3, 5 :: real] \<and>
   deltas_of [3, 5] [1, 2] = [2, 3] \<and>
   (\<exists>st. paired_compare (\<lambda>x. 1) [3, 5] [1, 2] = Inr st \<and> stat_n st = 2 \<and>
      cand_mean st = Fin 4 \<and> base_mean st = Fin (3/2) \<and> mean_delta st = Fin (5/2) \<and>
      se st = Fin (std_error [2, 3]) \<and> win_rate st = Fin 1)"
proof -
  have d: "deltas_of [3, 5] [1, 2] = [2, 3]"
    by (simp add: deltas_of_def upt_rec)
  from paired_compare_spec[of "[3, 5]" "[1, 2]" "\<lambda>x. 1"]
  show ?thesis
    by (simp add: d arith_mean_def win_fraction_def)
qed

text \<open>
  Claim C2 says that two empty sequences give all-zero statistics and a p-value of 1.
  The code guards the standard error with \<open>n > 0\<close>, and \<open>se\<close>, \<open>t_stat\<close> and \<open>p_value\<close>
  come out as 0, 0 and 1; the means and the win rate are \<open>np.mean\<close> of an empty array,
  which is NaN and not 0.
\<close>

theorem paired_compare_empty:
  "paired_compare erfc [] [] =
     Inr \<lparr>stat_n = 0, cand_mean = NaN, base_mean = NaN, mean_delta = NaN, se = Fin 0,
          t_stat = Fin 0, p_value = Fin 1, win_rate = NaN\<rparr>"
  by (simp add: paired_compare_def np_sub_def np_mean_def Let_def)

section \<open>Properties of the search protocol\<close>

subsection \<open>Comparisons of floats\<close>


lemma fl_le_Fin [simp]: "fl_le (Fin a) (Fin b) \<longleftrightarrow> a \<le> b"
  by (simp add: fl_le_def)

lemma fl_ge_fin: "fl_ge x y \<Longrightarrow> is_fin x \<and> is_fin y"
  by (cases x; cases y) simp_all

lemma fl_lt_not_ge: "fl_lt x y \<Longrightarrow> \<not> fl_ge x y"
  by (cases x; cases y) simp_all

lemma not_fl_lt_ge: "is_fin x \<Longrightarrow> is_fin y \<Longrightarrow> \<not> fl_lt x y \<Longrightarrow> fl_ge x y"
  by (cases x; cases y) simp_all

lemma fl_lt_ge: "fl_lt x y \<Longrightarrow> fl_ge y x"
  by (cases x; cases y) simp_all

lemma fl_ge_trans: "fl_ge x y \<Longrightarrow> fl_ge y z \<Longrightarrow> fl_ge x z"
  by (cases x; cases y; cases z) simp_all

lemma fl_le_not_gt: "fl_le x y \<Longrightarrow> \<not> fl_gt x y"
  by (cases x; cases y) (simp_all add: fl_le_def fl_gt_def)

subsection \<open>The descending sort\<close>

lemma mset_insert_desc: "mset (insert_desc key x ys) = add_mset x (mset ys)"
  by (induction ys) simp_all

lemma mset_sort_desc: "mset (sort_desc key xs) = mset xs"
  by (induction xs) (simp_all add: sort_desc_def mset_insert_desc)

lemma set_sort_desc: "set (sort_desc key xs) = set xs"
  using mset_sort_desc[of key xs] by (metis set_mset_mset)

lemma length_sort_desc: "length (sort_desc key xs) = length xs"
  using mset_sort_desc[of key xs] by (metis size_mset)

lemma set_insert_desc: "set (insert_desc key x ys) = insert x (set ys)"
  using mset_insert_desc[of key x ys] by (metis set_mset_mset set_mset_add_mset_insert)

lemma sorted_insert_desc:
  assumes "is_fin (key x)" "\<forall>y\<in>set ys. is_fin (key y)" "sorted_wrt (desc_order key) ys"
  shows "sorted_wrt (desc_order key) (insert_desc key x ys)"
  using assms
proof (induction ys)
  case Nil
  then show ?case by simp
next
  case (Cons y ys)
  show ?case
  proof (cases "fl_lt (key x) (key y)")
    case True
    then have "desc_order key y x" by (simp add: desc_order_def fl_lt_ge)
    with Cons True show ?thesis by (auto simp: set_insert_desc)
  next
    case False
    with Cons.prems have xy: "desc_order key x y"
      by (simp add: desc_order_def not_fl_lt_ge)
    have "desc_order key x z" if "z \<in> set ys" for z
      using xy Cons.prems(3) that unfolding desc_order_def
      by (auto intro: fl_ge_trans)
    with False xy Cons.prems show ?thesis by auto
  qed
qed

lemma sorted_sort_desc:
  assumes "\<forall>x\<in>set xs. is_fin (key x)"
  shows "sorted_wrt (desc_order key) (sort_desc key xs)"
  using assms
proof (induction xs)
  case Nil
  then show ?case by (simp add: sort_desc_def)
next
  case (Cons x xs)
  then have "sorted_wrt (desc_order key) (sort_desc key xs)" by simp
  moreover have "\<forall>y\<in>set (sort_desc key xs). is_fin (key y)"
    using Cons.prems by (simp add: set_sort_desc)
  ultimately have "sorted_wrt (desc_order key) (insert_desc key x (sort_desc key xs))"
    using Cons.prems by (intro sorted_insert_desc) simp_all
  then show ?case by (simp add: sort_desc_def)
qed

lemma sorted_wrt_filter_desc:
  "sorted_wrt R xs \<Longrightarrow> sorted_wrt R (filter P xs)"
  by (induction xs) auto

lemma sorted_wrt_take_desc:
  "sorted_wrt R xs \<Longrightarrow> sorted_wrt R (take k xs)"
  by (metis append_take_drop_id sorted_wrt_append)

lemma sorted_wrt_take_drop:
  "sorted_wrt R xs \<Longrightarrow> x \<in> set (take k xs) \<Longrightarrow> y \<in> set (drop k xs) \<Longrightarrow> R x y"
  by (metis append_take_drop_id sorted_wrt_append)

lemma length_filter_sort_desc:
  "length (filter P (sort_desc key xs)) = length (filter P xs)"
proof -
  have "mset (filter P (sort_desc key xs)) = mset (filter P xs)"
    by (simp add: mset_sort_desc)
  then show ?thesis by (metis size_mset)
qed

lemma top_k_split:
  "mset (take k (filter P (sort_desc key xs))) + mset (drop k (filter P (sort_desc key xs)))
     = filter_mset P (mset xs)"
proof -
  have "mset (take k (filter P (sort_desc key xs))) + mset (drop k (filter P (sort_desc key xs)))
      = mset (filter P (sort_desc key xs))"
    by (metis append_take_drop_id mset_append)
  then show ?thesis by (simp add: mset_sort_desc)
qed

subsection \<open>Stage 1\<close>

lemma survives_iff: "survives s \<longleftrightarrow> fl_ge (mean_delta s) (Fin (- 5))"
  by (simp add: survives_def)

lemma stage1_promote_eq:
  "stage1_promote rs = take 8 (filter survives (sort_desc mean_delta rs))"
  by (simp add: stage1_promote_def Let_def)

lemma stage1_promote_sound:
  assumes "s \<in> set (stage1_promote rs)"
  shows "s \<in> set rs \<and> survives s"
proof -
  from assms have "s \<in> set (filter survives (sort_desc mean_delta rs))"
    unfolding stage1_promote_eq by (rule in_set_takeD)
  then show ?thesis by (simp add: set_sort_desc)
qed

lemma length_stage1_promote:
  "length (stage1_promote rs) = min 8 (length (filter survives rs))"
  by (simp add: stage1_promote_eq length_filter_sort_desc min.commute)

text \<open>
  Claim C3. In Stage 1, for every list of evaluated results: no promoted result has a mean
  delta below -5, so a result with mean delta -6 is never promoted; the promoted list has
  \<open>min 8 k\<close> elements for \<open>k\<close> survivors of the threshold, hence at most 8 and exactly
  8 when more than 8 survive; it holds all survivors when there are at most 8; and, the
  mean deltas being numbers, the promoted results followed by the survivors left out are
  in descending order of mean delta, so the promoted ones are the top of that order.
\<close>

theorem stage1_promote_spec:
  "(\<forall>s\<in>set (stage1_promote rs). s \<in> set rs \<and> \<not> fl_lt (mean_delta s) (Fin (- 5))) \<and>
   (\<forall>s. fl_lt (mean_delta s) (Fin (- 5)) \<longrightarrow> s \<notin> set (stage1_promote rs)) \<and>
   (\<forall>s. mean_delta s = Fin (- 6) \<longrightarrow> s \<notin> set (stage1_promote rs)) \<and>
   length (stage1_promote rs) = min 8 (length (filter survives rs)) \<and>
   length (stage1_promote rs) \<le> 8 \<and>
   (8 < length (filter survives rs) \<longrightarrow> length (stage1_promote rs) = 8) \<and>
   (length (filter survives rs) \<le> 8 \<longrightarrow>
      mset (stage1_promote rs) = filter_mset survives (mset rs)) \<and>
   (\<exists>rest. mset (stage1_promote rs) + mset rest = filter_mset survives (mset rs) \<and>
      ((\<forall>s\<in>set rs. is_fin (mean_delta s)) \<longrightarrow>
         sorted_wrt (desc_order mean_delta) (stage1_promote rs @ rest)))"
proof -
  let ?f = "filter survives (sort_desc mean_delta rs)"
  have a: "\<forall>s\<in>set (stage1_promote rs). s \<in> set rs \<and> \<not> fl_lt (mean_delta s) (Fin (- 5))"
    using stage1_promote_sound fl_lt_not_ge by (auto simp: survives_def)
  then have b: "\<forall>s. fl_lt (mean_delta s) (Fin (- 5)) \<longrightarrow> s \<notin> set (stage1_promote rs)"
    by blast
  have c: "\<forall>s. mean_delta s = Fin (- 6) \<longrightarrow> s \<notin> set (stage1_promote rs)"
  proof (intro allI impI)
    fix s :: entry assume "mean_delta s = Fin (- 6)"
    then have "fl_lt (mean_delta s) (Fin (- 5))" by simp
    with b show "s \<notin> set (stage1_promote rs)" by blast
  qed
  have d: "length (stage1_promote rs) = min 8 (length (filter survives rs))"
    by (rule length_stage1_promote)
  have e: "length (filter survives rs) \<le> 8 \<longrightarrow>
      mset (stage1_promote rs) = filter_mset survives (mset rs)"
  proof
    assume "length (filter survives rs) \<le> 8"
    then have "length ?f \<le> 8" by (simp add: length_filter_sort_desc)
    then have "stage1_promote rs = ?f" by (simp add: stage1_promote_eq)
    then show "mset (stage1_promote rs) = filter_mset survives (mset rs)"
      by (simp add: mset_sort_desc)
  qed
  have f: "mset (stage1_promote rs) + mset (drop 8 ?f) = filter_mset survives (mset rs)"
    unfolding stage1_promote_eq by (rule top_k_split)
  have g: "(\<forall>s\<in>set rs. is_fin (mean_delta s)) \<longrightarrow>
         sorted_wrt (desc_order mean_delta) (stage1_promote rs @ drop 8 ?f)"
    by (simp add: stage1_promote_eq sorted_sort_desc sorted_wrt_filter_desc)
  from a b c d e f g show ?thesis by (intro conjI exI[of _ "drop 8 ?f"]) simp_all
qed

lemma sample_entry_sel [simp]:
  "mean_delta (sample_entry nm d t) = Fin d"
  "t_stat (sample_entry nm d t) = Fin t"
  "candidate (sample_entry nm d t) = nm"
  by (simp_all add: sample_entry_def)

lemma demo_promote: "stage1_promote demo =
    [sample_entry ''c11'' 7 0, sample_entry ''c7'' 5 0, sample_entry ''c8'' 4 0,
     sample_entry ''c3'' 3 0, sample_entry ''c4'' 2 0, sample_entry ''c1'' 1 0,
     sample_entry ''c5'' 0 0, sample_entry ''c6'' (- 1) 0]"
  by (simp add: stage1_promote_def demo_def sort_desc_def survives_def Let_def)

text \<open>
  The theorem on the eleven results of \<open>demo\<close>: the one at -6 is dropped, ten survive,
  and the eight largest are promoted in descending order.
\<close>

theorem stage1_promote_spec_witness:
  "list_all (\<lambda>s. is_fin (mean_delta s)) demo \<and>
   mean_delta (sample_entry ''c2'' (- 6) 0) = Fin (- 6) \<and>
   sample_entry ''c2'' (- 6) 0 \<in> set demo \<and>
   sample_entry ''c2'' (- 6) 0 \<notin> set (stage1_promote demo) \<and>
   8 < length (filter survives demo) \<and>
   length (stage1_promote demo) = 8 \<and>
   sorted_wrt (desc_order mean_delta) (stage1_promote demo) \<and>
   stage1_promote demo =
    [sample_entry ''c11'' 7 0, sample_entry ''c7'' 5 0, sample_entry ''c8'' 4 0,
     sample_entry ''c3'' 3 0, sample_entry ''c4'' 2 0, sample_entry ''c1'' 1 0,
     sample_entry ''c5'' 0 0, sample_entry ''c6'' (- 1) 0]"
proof -
  have fin: "\<forall>s\<in>set demo. is_fin (mean_delta s)" by (simp add: demo_def)
  have six: "mean_delta (sample_entry ''c2'' (- 6) 0) = Fin (- 6)" by simp
  have mem: "sample_entry ''c2'' (- 6) 0 \<in> set demo" by (simp add: demo_def)
  have many: "8 < length (filter survives demo)" by (simp add: demo_def survives_def)
  from stage1_promote_spec[of demo] fin obtain rest where
    out: "sample_entry ''c2'' (- 6) 0 \<notin> set (stage1_promote demo)"
    and len: "length (stage1_promote demo) = 8"
    and srt: "sorted_wrt (desc_order mean_delta) (stage1_promote demo @ rest)"
    using six many by auto
  from srt have "sorted_wrt (desc_order mean_delta) (stage1_promote demo)"
    by (simp add: sorted_wrt_append)
  with fin six mem many out len demo_promote show ?thesis
    by (simp add: list_all_iff)
qed

subsection \<open>The final summary\<close>

lemma filter_rec_ranking: "filter is_recommendation (map RankingLine rs) = []"
  by (induction rs) simp_all

text \<open>
  Claim C5. The final summary states exactly one recommendation. For an empty ranking it
  is the baseline. For a ranking with first element \<open>best\<close> it is: adopt \<open>best\<close> when its
  mean delta is above 3 and the absolute value of its t statistic is above 1.5; otherwise
  a marginal improvement, with the remark that the baseline is a strong choice too, when
  its mean delta is above 0; otherwise the baseline.
\<close>

theorem print_final_summary_recommendation:
  "filter is_recommendation (print_final_summary [] bm) = [RecommendBaseline] \<and>
   filter is_recommendation (print_final_summary (best # rest) bm) =
     [if fl_gt (mean_delta best) (Fin 3) \<and> fl_gt (fl_abs (t_stat best)) (Fin 1.5)
      then RecommendUse (candidate best) (mean_delta best) (t_stat best)
      else if fl_gt (mean_delta best) (Fin 0)
      then MarginalImprovement (candidate best) (mean_delta best)
      else RecommendBaseline] \<and>
   (ConsiderSubmitting \<in> set (print_final_summary (best # rest) bm) \<longleftrightarrow>
      \<not> (fl_gt (mean_delta best) (Fin 3) \<and> fl_gt (fl_abs (t_stat best)) (Fin 1.5)) \<and>
      fl_gt (mean_delta best) (Fin 0))"
  by (auto simp: print_final_summary_def filter_rec_ranking)

text \<open>
  The three recommendations on concrete rankings: a clear winner (also with a negative t
  statistic of large absolute value), a winner with a small t statistic, and no winner.
\<close>

theorem print_final_summary_recommendation_witness:
  "filter is_recommendation
     (print_final_summary [sample_entry ''c1'' 4 2, sample_entry ''c2'' 1 0] (Fin 100))
     = [RecommendUse ''c1'' (Fin 4) (Fin 2)] \<and>
   filter is_recommendation
     (print_final_summary [sample_entry ''c1'' 4 1, sample_entry ''c2'' 1 0] (Fin 100))
     = [MarginalImprovement ''c1'' (Fin 4)] \<and>
   filter is_recommendation
     (print_final_summary [sample_entry ''c1'' 4 (- 2), sample_entry ''c2'' 1 0] (Fin 100))
     = [RecommendUse ''c1'' (Fin 4) (Fin (- 2))] \<and>
   filter is_recommendation
     (print_final_summary [sample_entry ''c1'' 0 0, sample_entry ''c2'' (- 1) 0] (Fin 100))
     = [RecommendBaseline] \<and>
   filter is_recommendation (print_final_summary [] (Fin 100)) = [RecommendBaseline]"
  using print_final_summary_recommendation[of "Fin 100" "sample_entry ''c1'' 4 2"
      "[sample_entry ''c2'' 1 0]"]
    print_final_summary_recommendation[of "Fin 100" "sample_entry ''c1'' 4 1"
      "[sample_entry ''c2'' 1 0]"]
    print_final_summary_recommendation[of "Fin 100" "sample_entry ''c1'' 4 (- 2)"
      "[sample_entry ''c2'' 1 0]"]
    print_final_summary_recommendation[of "Fin 100" "sample_entry ''c1'' 0 0"
      "[sample_entry ''c2'' (- 1) 0]"]
  by (simp add: fl_abs_def)

subsection \<open>Stage 2\<close>

lemma stage2_promote_None:
  "stage2_promote rs = None \<longleftrightarrow> (\<forall>s\<in>set rs. \<not> positive s)"
  by (auto simp: stage2_promote_def Let_def list_ex_iff set_sort_desc)

lemma stage2_promote_Some:
  "stage2_promote rs = Some ps \<Longrightarrow> ps = take 3 (filter positive (sort_desc mean_delta rs))"
  by (auto simp: stage2_promote_def Let_def split: if_splits)

lemma stage2_promote_nonempty:
  assumes "stage2_promote rs = Some ps" shows "ps \<noteq> []"
proof -
  from assms have "stage2_promote rs \<noteq> None" by simp
  then obtain s where "s \<in> set rs" "positive s" by (auto simp: stage2_promote_None)
  then have "filter positive (sort_desc mean_delta rs) \<noteq> []"
    by (auto simp: filter_empty_conv set_sort_desc)
  then show ?thesis using stage2_promote_Some[OF assms] by simp
qed

lemma stage2_promote_props:
  assumes "stage2_promote rs = Some ps"
  shows "ps \<noteq> [] \<and> length ps = min 3 (length (filter positive rs)) \<and> length ps \<le> 3 \<and>
       (\<forall>s\<in>set ps. s \<in> set rs \<and> fl_gt (mean_delta s) (Fin 0)) \<and>
       (\<exists>rest. mset ps + mset rest = filter_mset positive (mset rs) \<and>
          ((\<forall>s\<in>set rs. is_fin (mean_delta s)) \<longrightarrow>
             sorted_wrt (desc_order mean_delta) (ps @ rest)))"
proof -
  let ?f = "filter positive (sort_desc mean_delta rs)"
  note ps = stage2_promote_Some[OF assms]
  have l: "length ps = min 3 (length (filter positive rs))"
    by (simp add: ps length_filter_sort_desc min.commute)
  have m: "\<forall>s\<in>set ps. s \<in> set rs \<and> fl_gt (mean_delta s) (Fin 0)"
  proof
    fix s assume "s \<in> set ps"
    then have "s \<in> set ?f" unfolding ps by (rule in_set_takeD)
    then show "s \<in> set rs \<and> fl_gt (mean_delta s) (Fin 0)"
      by (simp add: set_sort_desc positive_def)
  qed
  have f: "mset ps + mset (drop 3 ?f) = filter_mset positive (mset rs)"
    unfolding ps by (rule top_k_split)
  have g: "(\<forall>s\<in>set rs. is_fin (mean_delta s)) \<longrightarrow>
         sorted_wrt (desc_order mean_delta) (ps @ drop 3 ?f)"
    by (simp add: ps sorted_sort_desc sorted_wrt_filter_desc)
  from stage2_promote_nonempty[OF assms] l m f g show ?thesis
    by (intro conjI exI[of _ "drop 3 ?f"]) simp_all
qed

subsection \<open>What the stage loops print\<close>

lemma stage1_loop_log:
  "stage1_loop c n base ds = Inr (rs, ls) \<Longrightarrow> list_all is_progress_line ls"
proof (induction ds arbitrary: rs ls)
  case Nil
  then show ?case by simp
next
  case (Cons d ds)
  then show ?case
    by (auto simp: Let_def split: sum.splits prod.splits)
qed

lemma rerun_loop_log:
  "rerun_loop c k n base ss = Inr (rs, ls) \<Longrightarrow> list_all is_progress_line ls"
proof (induction ss arbitrary: rs ls)
  case Nil
  then show ?case by simp
next
  case (Cons s ss)
  then show ?case
    by (auto simp: Let_def split: sum.splits prod.splits)
qed

lemma progress_no_recommendation:
  "list_all is_progress_line ls \<Longrightarrow> filter is_recommendation ls = []"
proof (induction ls)
  case Nil then show ?case by simp
next
  case (Cons l ls) then show ?case by (cases l) simp_all
qed

lemma progress_no_header:
  "list_all is_progress_line ls \<Longrightarrow> StageHeader k n \<notin> set ls"
  by (auto simp: list_all_iff)

lemma filter_rec_promoted: "filter is_recommendation (map PromotedLine rs) = []"
  by (induction rs) simp_all

lemma header_not_promoted: "StageHeader k n \<notin> set (map PromotedLine rs)"
  by auto

lemma header_not_summary: "StageHeader k n \<notin> set (print_final_summary rs bm)"
  by (auto simp: print_final_summary_def split: list.splits)

subsection \<open>The run around Stage 2\<close>

lemma fl_gt_3_0: "fl_gt x (Fin 3) \<Longrightarrow> fl_gt x (Fin 0)"
  by (cases x) (simp_all add: fl_gt_def)

lemma summary_no_positive:
  assumes "\<forall>s\<in>set rs. \<not> positive s"
  shows "filter is_recommendation (print_final_summary (sort_desc mean_delta rs) bm)
    = [RecommendBaseline]"
proof (cases "sort_desc mean_delta rs")
  case Nil
  then show ?thesis by (simp add: print_final_summary_def)
next
  case (Cons best rest)
  then have "best \<in> set rs" using set_sort_desc[of mean_delta rs] by auto
  with assms have n: "\<not> fl_gt (mean_delta best) (Fin 0)" by (simp add: positive_def)
  then have "\<not> fl_gt (mean_delta best) (Fin 3)" using fl_gt_3_0 by blast
  with n show ?thesis
    by (simp add: Cons print_final_summary_def filter_rec_ranking)
qed

lemma run_search_stops_after_stage2:
  assumes b: "compile_source c 0
        (generate_strategy c (static_sym_template c) [(''bps'', ''80'')]) = Inr b"
    and s1: "stage1_loop c n1 (run_match c n1 b) cands = Inr (r1, l1)"
    and pr: "stage1_promote r1 \<noteq> []"
    and s2: "rerun_loop c 2 n2 (run_match c n2 b) (stage1_promote r1) = Inr (r2, l2)"
    and stop: "stage2_promote r2 = None"
  shows "\<exists>out. run_search c cands n1 n2 n3 = Inr out \<and> NoPositiveDelta \<in> set out \<and>
      (\<forall>n. StageHeader 3 n \<notin> set out) \<and>
      filter is_recommendation out = [RecommendBaseline]"
proof -
  let ?bm = "np_mean (run_match c n1 b)"
  let ?out = "[StageHeader 0 n1, BaselineMeanLine ?bm, StageHeader 1 n1] @ l1 @
      [StageSummary 1 (length r1) (length (stage1_promote r1))] @
      map PromotedLine (stage1_promote r1) @ [StageHeader 2 n2] @ l2 @
      [NoPositiveDelta] @ print_final_summary (sort_desc mean_delta r2) ?bm"
  have run: "run_search c cands n1 n2 n3 = Inr ?out"
    by (simp add: run_search_def Let_def b s1 pr s2 stop)
  have p1: "list_all is_progress_line l1" using s1 by (rule stage1_loop_log)
  have p2: "list_all is_progress_line l2" using s2 by (rule rerun_loop_log)
  have np: "\<forall>s\<in>set r2. \<not> positive s" using stop by (simp add: stage2_promote_None)
  have rec: "filter is_recommendation ?out = [RecommendBaseline]"
    by (simp add: progress_no_recommendation[OF p1] progress_no_recommendation[OF p2]
        filter_rec_promoted summary_no_positive[OF np])
  have hd: "StageHeader 3 n \<notin> set ?out" for n
    using progress_no_header[OF p1, of 3 n] progress_no_header[OF p2, of 3 n]
      header_not_summary[of 3 n "sort_desc mean_delta r2" ?bm]
    by auto
  from run rec hd show ?thesis by (intro exI[of _ ?out]) simp
qed

lemma run_search_enters_stage3:
  assumes b: "compile_source c 0
        (generate_strategy c (static_sym_template c) [(''bps'', ''80'')]) = Inr b"
    and s1: "stage1_loop c n1 (run_match c n1 b) cands = Inr (r1, l1)"
    and pr: "stage1_promote r1 \<noteq> []"
    and s2: "rerun_loop c 2 n2 (run_match c n2 b) (stage1_promote r1) = Inr (r2, l2)"
    and go: "stage2_promote r2 = Some ps"
  shows "\<exists>pre. run_search c cands n1 n2 n3 =
      (case rerun_loop c 3 n3 (run_match c n3 b) ps of
         Inl e \<Rightarrow> Inl e
       | Inr (r3, l3) \<Rightarrow>
           Inr (pre @ [StageHeader 3 n3] @ l3 @
                print_final_summary (sort_desc mean_delta r3) (np_mean (run_match c n3 b))))"
proof -
  let ?bm = "np_mean (run_match c n1 b)"
  let ?pre = "[StageHeader 0 n1, BaselineMeanLine ?bm, StageHeader 1 n1] @ l1 @
      [StageSummary 1 (length r1) (length (stage1_promote r1))] @
      map PromotedLine (stage1_promote r1) @ [StageHeader 2 n2] @ l2 @
      [StageSummary 2 (length r2) (length ps)] @ map PromotedLine ps"
  have "run_search c cands n1 n2 n3 =
      (case rerun_loop c 3 n3 (run_match c n3 b) ps of
         Inl e \<Rightarrow> Inl e
       | Inr (r3, l3) \<Rightarrow>
           Inr (?pre @ [StageHeader 3 n3] @ l3 @
                print_final_summary (sort_desc mean_delta r3) (np_mean (run_match c n3 b))))"
    by (simp add: run_search_def Let_def b s1 pr s2 go split: sum.splits prod.splits)
  then show ?thesis by (rule exI[of _ ?pre])
qed

text \<open>
  Claim C4. In Stage 2: when every result has a mean delta of at most 0, there is no
  promotion (and none exactly when no mean delta is above 0); a promotion is not empty,
  has \<open>min 3 k\<close> elements for \<open>k\<close> results with positive mean delta, all of them with
  positive mean delta, and is the top of the descending order of the positive ones. In a
  run that reaches the end of the Stage 2 loop, no promotion means that \<open>run_search\<close>
  returns with the line that no candidate shows a positive mean delta, without a Stage 3
  header, recommending the baseline; a promotion \<open>ps\<close> means that Stage 3 is run on
  exactly \<open>ps\<close>.
\<close>

theorem stage2_promote_spec:
  "((\<forall>s\<in>set rs. fl_le (mean_delta s) (Fin 0)) \<longrightarrow> stage2_promote rs = None) \<and>
   (stage2_promote rs = None \<longleftrightarrow> (\<forall>s\<in>set rs. \<not> fl_gt (mean_delta s) (Fin 0))) \<and>
   (\<forall>ps. stage2_promote rs = Some ps \<longrightarrow>
      ps \<noteq> [] \<and> length ps = min 3 (length (filter positive rs)) \<and> length ps \<le> 3 \<and>
      (\<forall>s\<in>set ps. s \<in> set rs \<and> fl_gt (mean_delta s) (Fin 0)) \<and>
      (\<exists>rest. mset ps + mset rest = filter_mset positive (mset rs) \<and>
         ((\<forall>s\<in>set rs. is_fin (mean_delta s)) \<longrightarrow>
            sorted_wrt (desc_order mean_delta) (ps @ rest)))) \<and>
   (compile_source c 0 (generate_strategy c (static_sym_template c) [(''bps'', ''80'')]) = Inr b \<and>
    stage1_loop c n1 (run_match c n1 b) cands = Inr (r1, l1) \<and>
    stage1_promote r1 \<noteq> [] \<and>
    rerun_loop c 2 n2 (run_match c n2 b) (stage1_promote r1) = Inr (rs, l2) \<longrightarrow>
      (stage2_promote rs = None \<longrightarrow>
         (\<exists>out. run_search c cands n1 n2 n3 = Inr out \<and> NoPositiveDelta \<in> set out \<and>
            (\<forall>n. StageHeader 3 n \<notin> set out) \<and>
            filter is_recommendation out = [RecommendBaseline])) \<and>
      (\<forall>ps. stage2_promote rs = Some ps \<longrightarrow>
         (\<exists>pre. run_search c cands n1 n2 n3 =
            (case rerun_loop c 3 n3 (run_match c n3 b) ps of
               Inl e \<Rightarrow> Inl e
             | Inr (r3, l3) \<Rightarrow>
                 Inr (pre @ [StageHeader 3 n3] @ l3 @
                      print_final_summary (sort_desc mean_delta r3)
                        (np_mean (run_match c n3 b)))))))"
proof (intro conjI)
  show "(\<forall>s\<in>set rs. fl_le (mean_delta s) (Fin 0)) \<longrightarrow> stage2_promote rs = None"
    using fl_le_not_gt by (auto simp: stage2_promote_None positive_def)
  show "stage2_promote rs = None \<longleftrightarrow> (\<forall>s\<in>set rs. \<not> fl_gt (mean_delta s) (Fin 0))"
    by (simp add: stage2_promote_None positive_def)
  show "\<forall>ps. stage2_promote rs = Some ps \<longrightarrow>
      ps \<noteq> [] \<and> length ps = min 3 (length (filter positive rs)) \<and> length ps \<le> 3 \<and>
      (\<forall>s\<in>set ps. s \<in> set rs \<and> fl_gt (mean_delta s) (Fin 0)) \<and>
      (\<exists>rest. mset ps + mset rest = filter_mset positive (mset rs) \<and>
         ((\<forall>s\<in>set rs. is_fin (mean_delta s)) \<longrightarrow>
            sorted_wrt (desc_order mean_delta) (ps @ rest)))"
    using stage2_promote_props by blast
  show "compile_source c 0 (generate_strategy c (static_sym_template c) [(''bps'', ''80'')]) = Inr b \<and>
    stage1_loop c n1 (run_match c n1 b) cands = Inr (r1, l1) \<and>
    stage1_promote r1 \<noteq> [] \<and>
    rerun_loop c 2 n2 (run_match c n2 b) (stage1_promote r1) = Inr (rs, l2) \<longrightarrow>
      (stage2_promote rs = None \<longrightarrow>
         (\<exists>out. run_search c cands n1 n2 n3 = Inr out \<and> NoPositiveDelta \<in> set out \<and>
            (\<forall>n. StageHeader 3 n \<notin> set out) \<and>
            filter is_recommendation out = [RecommendBaseline])) \<and>
      (\<forall>ps. stage2_promote rs = Some ps \<longrightarrow>
         (\<exists>pre. run_search c cands n1 n2 n3 =
            (case rerun_loop c 3 n3 (run_match c n3 b) ps of
               Inl e \<Rightarrow> Inl e
             | Inr (r3, l3) \<Rightarrow>
                 Inr (pre @ [StageHeader 3 n3] @ l3 @
                      print_final_summary (sort_desc mean_delta r3)
                        (np_mean (run_match c n3 b))))))"
  proof (intro impI conjI allI)
    assume h: "compile_source c 0
        (generate_strategy c (static_sym_template c) [(''bps'', ''80'')]) = Inr b \<and>
      stage1_loop c n1 (run_match c n1 b) cands = Inr (r1, l1) \<and>
      stage1_promote r1 \<noteq> [] \<and>
      rerun_loop c 2 n2 (run_match c n2 b) (stage1_promote r1) = Inr (rs, l2)"
    assume "stage2_promote rs = None"
    with h show "\<exists>out. run_search c cands n1 n2 n3 = Inr out \<and> NoPositiveDelta \<in> set out \<and>
            (\<forall>n. StageHeader 3 n \<notin> set out) \<and>
            filter is_recommendation out = [RecommendBaseline]"
      by (intro run_search_stops_after_stage2[of c b n1 cands r1 l1 n2 rs l2]) simp_all
  next
    fix ps
    assume h: "compile_source c 0
        (generate_strategy c (static_sym_template c) [(''bps'', ''80'')]) = Inr b \<and>
      stage1_loop c n1 (run_match c n1 b) cands = Inr (r1, l1) \<and>
      stage1_promote r1 \<noteq> [] \<and>
      rerun_loop c 2 n2 (run_match c n2 b) (stage1_promote r1) = Inr (rs, l2)"
    assume "stage2_promote rs = Some ps"
    with h show "\<exists>pre. run_search c cands n1 n2 n3 =
            (case rerun_loop c 3 n3 (run_match c n3 b) ps of
               Inl e \<Rightarrow> Inl e
             | Inr (r3, l3) \<Rightarrow>
                 Inr (pre @ [StageHeader 3 n3] @ l3 @
                      print_final_summary (sort_desc mean_delta r3)
                        (np_mean (run_match c n3 b))))"
      by (intro run_search_enters_stage3[of c b n1 cands r1 l1 n2 rs l2]) simp_all
  qed
qed

lemma pc_single:
  "paired_compare e [a] [b] = Inr \<lparr>stat_n = 1, cand_mean = Fin a, base_mean = Fin b,
     mean_delta = Fin (a - b), se = Fin 0, t_stat = Fin 0, p_value = Fin 1,
     win_rate = Fin (if a - b > 0 then 1 else 0)\<rparr>"
  by (simp add: paired_compare_def np_sub_def np_mean_def Let_def)

lemma steady_compile:
  "compile_source steady k (generate_strategy steady t ps) =
     (if t = ''bad'' then Inl (CompileError ''syntax error'') else Inr t)"
  by (simp add: steady_def)

lemma flaky_compile:
  "compile_source (flaky j) k (generate_strategy (flaky j) t ps) =
     (if k = j then Inl (CompileError ''solc failed'')
      else if t = ''bad'' then Inl (CompileError ''syntax error'') else Inr t)"
  by (simp add: flaky_def steady_def)

lemma steady_base: "static_sym_template steady = ''base''"
  by (simp add: steady_def)

lemma flaky_base: "static_sym_template (flaky j) = ''base''"
  by (simp add: flaky_def steady_def)

lemma steady_stage1_down:
  "stage1_loop steady 1 (run_match steady 1 ''base'') [sample_def ''bad'', sample_def ''down''] =
     Inr ([steady_entry ''down''],
          [CompileFailedLine ''bad'' ''syntax error'', CandidateLine (steady_entry ''down'')])"
  by (simp add: steady_def sample_def_def pc_single edge_of_def tag_stats_def steady_entry_def
      Let_def)

lemma steady_rerun_down:
  "rerun_loop steady k 1 (run_match steady 1 ''base'') [steady_entry ''down''] =
     Inr ([steady_entry ''down''], [CandidateLine (steady_entry ''down'')])"
  by (simp add: steady_def sample_def_def pc_single edge_of_def tag_stats_def steady_entry_def
      Let_def)

lemma steady_promote1: "stage1_promote [steady_entry a] = [steady_entry a]"
  by (simp add: stage1_promote_def sort_desc_def survives_def steady_entry_def edge_of_def)

lemma steady_promote2:
  "stage2_promote [steady_entry ''down''] = None"
  "stage2_promote [steady_entry ''up''] = Some [steady_entry ''up'']"
  by (simp_all add: stage2_promote_def sort_desc_def positive_def steady_entry_def edge_of_def)

text \<open>
  The theorem on two results without a positive mean delta, on five results of which the
  three largest are promoted, and on a run under \<open>steady\<close> whose one surviving
  candidate is worse than the baseline.
\<close>

theorem stage2_promote_spec_witness:
  "list_all (\<lambda>s. fl_le (mean_delta s) (Fin 0))
     [sample_entry ''c1'' (- 1) 0, sample_entry ''c2'' 0 0] \<and>
   stage2_promote [sample_entry ''c1'' (- 1) 0, sample_entry ''c2'' 0 0] = None \<and>
   stage2_promote [sample_entry ''c1'' 2 0, sample_entry ''c2'' (- 1) 0,
       sample_entry ''c3'' 5 0, sample_entry ''c4'' 1 0, sample_entry ''c5'' 3 0] =
     Some [sample_entry ''c3'' 5 0, sample_entry ''c5'' 3 0, sample_entry ''c1'' 2 0] \<and>
   sorted_wrt (desc_order mean_delta)
     [sample_entry ''c3'' 5 0, sample_entry ''c5'' 3 0, sample_entry ''c1'' 2 0] \<and>
   stage1_promote [steady_entry ''down''] \<noteq> [] \<and>
   stage2_promote [steady_entry ''down''] = None \<and>
   (\<exists>out. run_search steady [sample_def ''bad'', sample_def ''down''] 1 1 1 = Inr out \<and>
      NoPositiveDelta \<in> set out \<and> (\<forall>n. StageHeader 3 n \<notin> set out) \<and>
      filter is_recommendation out = [RecommendBaseline])"
proof -
  let ?stop = "[sample_entry ''c1'' (- 1) 0, sample_entry ''c2'' 0 0]"
  let ?go = "[sample_entry ''c1'' 2 0, sample_entry ''c2'' (- 1) 0,
       sample_entry ''c3'' 5 0, sample_entry ''c4'' 1 0, sample_entry ''c5'' 3 0]"
  let ?top = "[sample_entry ''c3'' 5 0, sample_entry ''c5'' 3 0, sample_entry ''c1'' 2 0]"
  have h1: "\<forall>s\<in>set ?stop. fl_le (mean_delta s) (Fin 0)" by simp
  have stop: "stage2_promote ?stop = None"
    using stage2_promote_spec[THEN conjunct1, of ?stop] h1 by (rule mp)
  have go: "stage2_promote ?go = Some ?top"
    by (simp add: stage2_promote_def sort_desc_def positive_def Let_def)
  have fin: "\<forall>s\<in>set ?go. is_fin (mean_delta s)" by simp
  note third = stage2_promote_spec[THEN conjunct2, THEN conjunct2, THEN conjunct1,
      rule_format, of ?go ?top]
  from third[OF go] fin obtain rest where
    "sorted_wrt (desc_order mean_delta) (?top @ rest)" by blast
  then have srt: "sorted_wrt (desc_order mean_delta) ?top"
    unfolding sorted_wrt_append by blast
  have e0: "compile_source steady 0
      (generate_strategy steady (static_sym_template steady) [(''bps'', ''80'')]) = Inr ''base''"
    by (simp add: steady_compile steady_base)
  have e1: "stage1_loop steady 1 (run_match steady 1 ''base'')
      [sample_def ''bad'', sample_def ''down''] =
      Inr ([steady_entry ''down''],
           [CompileFailedLine ''bad'' ''syntax error'', CandidateLine (steady_entry ''down'')])"
    by (rule steady_stage1_down)
  have e2: "stage1_promote [steady_entry ''down''] \<noteq> []" by (simp add: steady_promote1)
  have e3: "rerun_loop steady 2 1 (run_match steady 1 ''base'')
      (stage1_promote [steady_entry ''down'']) =
      Inr ([steady_entry ''down''], [CandidateLine (steady_entry ''down'')])"
    unfolding steady_promote1 by (rule steady_rerun_down)
  have run: "\<exists>out. run_search steady [sample_def ''bad'', sample_def ''down''] 1 1 1 = Inr out \<and>
      NoPositiveDelta \<in> set out \<and> (\<forall>n. StageHeader 3 n \<notin> set out) \<and>
      filter is_recommendation out = [RecommendBaseline]"
  proof -
    note fourth = stage2_promote_spec[THEN conjunct2, THEN conjunct2, THEN conjunct2,
        THEN mp, THEN conjunct1, THEN mp]
    have h: "compile_source steady 0
        (generate_strategy steady (static_sym_template steady) [(''bps'', ''80'')]) = Inr ''base'' \<and>
      stage1_loop steady 1 (run_match steady 1 ''base'')
        [sample_def ''bad'', sample_def ''down''] =
        Inr ([steady_entry ''down''],
           [CompileFailedLine ''bad'' ''syntax error'', CandidateLine (steady_entry ''down'')]) \<and>
      stage1_promote [steady_entry ''down''] \<noteq> [] \<and>
      rerun_loop steady 2 1 (run_match steady 1 ''base'')
        (stage1_promote [steady_entry ''down'']) =
        Inr ([steady_entry ''down''], [CandidateLine (steady_entry ''down'')])"
      using e0 e1 e2 e3 by blast
    show ?thesis by (rule fourth[OF h steady_promote2(1)])
  qed
  from h1 stop go srt e2 steady_promote2(1) run show ?thesis
    by (simp add: list_all_iff)
qed

subsection \<open>Compile failures\<close>

lemma paired_compare_error: "paired_compare e xs ys = Inl x \<Longrightarrow> x = ValueError"
  by (auto simp: paired_compare_def np_sub_def Let_def split: if_splits sum.splits)

lemma stage1_loop_catches_compile_errors:
  "stage1_loop c n base ds \<noteq> Inl (CompileError m)"
proof (induction ds)
  case Nil
  then show ?case by simp
next
  case (Cons d ds)
  then show ?case
    by (auto simp: Let_def split: sum.splits prod.splits dest: paired_compare_error)
qed

lemma rerun_loop_compile_error:
  "compile_source c k (generate_strategy c (template (cdef s)) (params (cdef s))) = Inl e \<Longrightarrow>
   rerun_loop c k n base (s # ss) = Inl e"
  by simp

text \<open>
  Claim C6 says that in every stage a compile failure of a candidate is caught and the run
  goes on. Stage 1 does that (\<open>stage1_loop_catches_compile_errors\<close>, and the run under
  \<open>steady\<close> below prints the failure of \<open>bad\<close> and ranks \<open>up\<close>). Stage 2 and Stage 3
  compile the promoted candidates again without a handler: when the compiler, which
  answered in Stage 1, fails in Stage 2 or in Stage 3, the exception ends \<open>run_search\<close>.
\<close>

theorem run_search_compile_failure_after_stage1:
  "compile_source (flaky 2) 1
     (generate_strategy (flaky 2) (template (sample_def ''up'')) (params (sample_def ''up'')))
     = Inr ''up'' \<and>
   compile_source (flaky 2) 2
     (generate_strategy (flaky 2) (template (sample_def ''up'')) (params (sample_def ''up'')))
     = Inl (CompileError ''solc failed'') \<and>
   run_search (flaky 2) [sample_def ''up'', sample_def ''down''] 1 1 1
     = Inl (CompileError ''solc failed'') \<and>
   run_search (flaky 3) [sample_def ''up'', sample_def ''down''] 1 1 1
     = Inl (CompileError ''solc failed'') \<and>
   (\<exists>out. run_search steady [sample_def ''bad'', sample_def ''up''] 1 1 1 = Inr out \<and>
      CompileFailedLine ''bad'' ''syntax error'' \<in> set out \<and>
      RankingLine (steady_entry ''up'') \<in> set out)"
proof -
  have p: "paired_compare e [a] [0] = Inr \<lparr>stat_n = 1, cand_mean = Fin a, base_mean = Fin 0,
     mean_delta = Fin a, se = Fin 0, t_stat = Fin 0, p_value = Fin 1,
     win_rate = Fin (if a > 0 then 1 else 0)\<rparr>" for e a
    using pc_single[of e a 0] by simp
  have a: "run_search (flaky 2) [sample_def ''up'', sample_def ''down''] 1 1 1
     = Inl (CompileError ''solc failed'')"
    by (simp add: run_search_def flaky_def steady_def sample_def_def p edge_of_def
        tag_stats_def stage1_promote_def sort_desc_def survives_def Let_def)
  have b: "run_search (flaky 3) [sample_def ''up'', sample_def ''down''] 1 1 1
     = Inl (CompileError ''solc failed'')"
    by (simp add: run_search_def flaky_def steady_def sample_def_def p edge_of_def
        tag_stats_def stage1_promote_def stage2_promote_def positive_def sort_desc_def
        survives_def Let_def)
  have c: "\<exists>out. run_search steady [sample_def ''bad'', sample_def ''up''] 1 1 1 = Inr out \<and>
      CompileFailedLine ''bad'' ''syntax error'' \<in> set out \<and>
      RankingLine (steady_entry ''up'') \<in> set out"
    by (simp add: run_search_def steady_def sample_def_def p edge_of_def
        tag_stats_def stage1_promote_def stage2_promote_def positive_def sort_desc_def
        survives_def Let_def print_final_summary_def steady_entry_def fl_abs_def)
  show ?thesis using a b c by (simp add: flaky_compile sample_def_def)
qed

end
